theory Spec2Isabelle
  imports Main "HOL-Library.Sublist" "HOL-Library.Word"
begin

section \<open>The encrypted note store of notes.one\<close>

text \<open>
  This theory embeds the class \<open>EncryptedNotesDatabase\<close> (file \<open>database-encrypted.js\<close>):
  the field cipher (\<open>encrypt\<close>, \<open>decrypt\<close>), the key file handling
  (\<open>initializeEncryption\<close>, \<open>changeEncryptionPassword\<close>) and the versioned, soft-deleting
  note store (\<open>addNote\<close>, \<open>updateNote\<close>, \<open>deleteNote\<close>, \<open>restoreNoteVersion\<close>,
  \<open>getNotes\<close>, \<open>searchNotes\<close>, \<open>getSearchCount\<close>).

  The class is stateful; every method of the model takes the state and returns the new one
  next to its result. An exception of the source is the value \<open>Thrown e\<close>.

  Text stored in the tables is modelled by \<open>string\<close>: a character is a code unit below 256
  (Latin-1). \<open>encrypt\<close> and \<open>decrypt\<close> only hand their argument to the library and test it for
  emptiness; they are defined for any type of code unit, so that they can also be run on
  16-bit code units, where unpaired surrogates exist.
\<close>

subsection \<open>The libraries the class calls\<close>

text \<open>
  CryptoJS and Node's \<open>crypto\<close> are not part of the repository. They are a parameter of every
  definition below (\<open>'c\<close> is the type of the code units of a text):
  \<^item> \<open>PBKDF2 L password salt\<close> is
    \<open>CryptoJS.PBKDF2(password, salt, {keySize: 256/32, iterations: 10000}).toString()\<close>;
  \<^item> \<open>AES_encrypt L data key r\<close> is \<open>CryptoJS.AES.encrypt(data, key).toString()\<close>, where \<open>r\<close> is
    the state of the random generator the call draws its salt from, and \<open>None\<close> is an exception;
  \<^item> \<open>AES_decrypt L data key\<close> is
    \<open>CryptoJS.AES.decrypt(data, key).toString(CryptoJS.enc.Utf8)\<close>, \<open>None\<close> when either call
    throws (on malformed UTF-8); under a key other than the one the value was written with
    CryptoJS rarely throws: it does not check the padding and mostly returns the empty string;
  \<^item> \<open>randomBytes L r\<close> is \<open>crypto.randomBytes(32).toString('hex')\<close> drawn at generator state \<open>r\<close>.
\<close>

record 'c crypto =
  PBKDF2 :: "string \<Rightarrow> string \<Rightarrow> string"
  AES_encrypt :: "'c list \<Rightarrow> string \<Rightarrow> nat \<Rightarrow> 'c list option"
  AES_decrypt :: "'c list \<Rightarrow> string \<Rightarrow> 'c list option"
  randomBytes :: "nat \<Rightarrow> string"

subsection \<open>Tables, key file and the state of an instance\<close>

text \<open>
  The columns \<open>created_at\<close> and \<open>updated_at\<close> are assigned by SQLite's clock and read by no
  method modelled here; they are left out. \<open>timestamp\<close> is the instant supplied by the caller
  (an ISO-8601 string in the source, whose order is the order of the instants). Every text
  column written by this class is a string (\<open>note.source || ''\<close>), so no column is nullable here.
\<close>

record note_row =
  n_id :: nat
  n_content :: string
  n_source :: string
  n_url :: string
  n_timestamp :: int
  n_version :: nat
  n_is_deleted :: bool
  n_is_sensitive :: bool

record version_row =
  v_id :: nat
  v_note_id :: nat
  v_content :: string
  v_source :: string
  v_url :: string
  v_version :: nat
  v_change_type :: string

record key_info =
  k_key :: string
  k_salt :: string

text \<open>
  The state of an instance together with the files it owns: the two tables \<open>notes\<close> and
  \<open>note_versions\<close> in rowid order, the AUTOINCREMENT counters, the key file (\<open>None\<close> when it
  does not exist), the state of the random generator, and two descriptions of the
  environment: \<open>io_budget\<close> is the number of INSERT and UPDATE statements the storage engine
  still executes before \<open>run\<close> raises an error (\<open>None\<close>: it never does), \<open>keyfile_writable\<close>
  tells whether \<open>fs.writeFile\<close> on the key file succeeds. \<open>db_open\<close> tells whether \<open>this.db\<close>
  holds an open database: \<open>initialize\<close> opens it (line 299) before it creates the tables and
  sets \<open>isInitialized\<close> (line 317), so an instance can have an open database and not be
  initialized, while an initialized instance always has one. The methods that test
  \<open>isInitialized\<close> therefore find the database open.
\<close>

record store =
  isInitialized :: bool
  db_open :: bool
  encryptionKey :: "string option"
  isEncryptionEnabled :: bool
  notes_tbl :: "note_row list"
  note_versions_tbl :: "version_row list"
  next_note_id :: nat
  next_version_id :: nat
  keyfile :: "key_info option"
  keyfile_writable :: bool
  rng :: nat
  io_budget :: "nat option"

datatype error =
    NotInitialized
  | NoteNotFound
  | VersionNotFound
  | SqliteError
  | TypeError
  | ReferenceError
  | FileReadError
  | FileWriteError

datatype 'a outcome = Returned 'a | Thrown error

subsection \<open>encrypt and decrypt\<close>

text \<open>JavaScript truthiness of a value that is a string or null.\<close>

definition truthy :: "string option \<Rightarrow> bool" where
  "truthy v = (case v of None \<Rightarrow> False | Some x \<Rightarrow> x \<noteq> [])"

text \<open>
  \<open>encrypt(data)\<close>: the identity unless encryption is enabled and a key is loaded; the
  cipher's exception is caught and the plaintext returned. The call consumes randomness.
\<close>

definition encrypt :: "'c crypto \<Rightarrow> store \<Rightarrow> 'c list \<Rightarrow> 'c list \<times> store" where
  "encrypt L s data =
     (if \<not> isEncryptionEnabled s \<or> \<not> truthy (encryptionKey s) then (data, s)
      else case encryptionKey s of
             None \<Rightarrow> (data, s)
           | Some k \<Rightarrow>
               (case AES_encrypt L data k (rng s) of
                  Some c \<Rightarrow> (c, s\<lparr>rng := Suc (rng s)\<rparr>)
                | None \<Rightarrow> (data, s\<lparr>rng := Suc (rng s)\<rparr>)))"

text \<open>
  \<open>decrypt(encryptedData)\<close>: the identity unless encryption is enabled, a key is loaded and
  the argument is non-empty; the cipher's exception is caught and the argument returned.
\<close>

definition decrypt :: "'c crypto \<Rightarrow> store \<Rightarrow> 'c list \<Rightarrow> 'c list" where
  "decrypt L s encryptedData =
     (if \<not> isEncryptionEnabled s \<or> \<not> truthy (encryptionKey s) \<or> encryptedData = []
      then encryptedData
      else case encryptionKey s of
             None \<Rightarrow> encryptedData
           | Some k \<Rightarrow>
               (case AES_decrypt L encryptedData k of
                  Some p \<Rightarrow> p
                | None \<Rightarrow> encryptedData))"

subsection \<open>Statements of the storage engine\<close>

text \<open>
  \<open>stmt.run(...)\<close> of an INSERT or UPDATE: the statement takes effect unless the storage
  engine raises (disk full, I/O error), which the environment decides through \<open>io_budget\<close>.
\<close>

definition run :: "store \<Rightarrow> (store \<Rightarrow> store) \<Rightarrow> store outcome" where
  "run s stmt =
     (case io_budget s of
        None \<Rightarrow> Returned (stmt s)
      | Some 0 \<Rightarrow> Thrown SqliteError
      | Some (Suc b) \<Rightarrow> Returned (stmt (s\<lparr>io_budget := Some b\<rparr>)))"

text \<open>\<open>db.prepare('SELECT ... WHERE p').get()\<close>: the first row that satisfies \<open>p\<close>, if any.\<close>

definition get_row :: "('a \<Rightarrow> bool) \<Rightarrow> 'a list \<Rightarrow> 'a option" where
  "get_row p rows = find p rows"

text \<open>
  \<open>ORDER BY timestamp DESC\<close>: descending timestamps; rows with equal timestamps stay in
  rowid order (the sort is stable).
\<close>

definition order_by_timestamp_desc :: "note_row list \<Rightarrow> note_row list" where
  "order_by_timestamp_desc rows = sort_key (\<lambda>n. - n_timestamp n) rows"

text \<open>\<open>LIMIT ? OFFSET ?\<close> and \<open>Array.prototype.slice(offset, offset + limit)\<close> on naturals.\<close>

definition limit_offset :: "nat \<Rightarrow> nat \<Rightarrow> 'a list \<Rightarrow> 'a list" where
  "limit_offset limit offset rows = take limit (drop offset rows)"

definition slice :: "nat \<Rightarrow> nat \<Rightarrow> 'a list \<Rightarrow> 'a list" where
  "slice start end rows = take (end - start) (drop start rows)"

subsection \<open>Writing notes and their history\<close>

record version_data =
  vd_content :: string
  vd_source :: string
  vd_url :: string
  vd_version :: nat
  vd_change_type :: string

text \<open>\<open>addNoteVersion(noteId, versionData)\<close>: one INSERT into \<open>note_versions\<close>; an error is rethrown.\<close>

definition addNoteVersion :: "store \<Rightarrow> nat \<Rightarrow> version_data \<Rightarrow> unit outcome \<times> store" where
  "addNoteVersion s noteId versionData =
     (case run s (\<lambda>t. t\<lparr>note_versions_tbl := note_versions_tbl t @
                 [\<lparr>v_id = next_version_id t, v_note_id = noteId,
                   v_content = vd_content versionData, v_source = vd_source versionData,
                   v_url = vd_url versionData, v_version = vd_version versionData,
                   v_change_type = (if vd_change_type versionData = [] then ''update''
                                    else vd_change_type versionData)\<rparr>],
               next_version_id := Suc (next_version_id t)\<rparr>) of
        Thrown e \<Rightarrow> (Thrown e, s)
      | Returned s' \<Rightarrow> (Returned (), s'))"

record note_input =
  i_content :: string
  i_source :: "string option"
  i_url :: "string option"
  i_timestamp :: int

text \<open>\<open>x || ''\<close> for a value that is a string, null or undefined.\<close>

definition or_empty :: "string option \<Rightarrow> string" where
  "or_empty v = (case v of None \<Rightarrow> [] | Some x \<Rightarrow> x)"

text \<open>
  \<open>addNote(note)\<close>: encrypts the three fields, inserts the \<open>notes\<close> row (version 1, the column
  defaults for the two flags), then records the \<open>create\<close> entry. The two INSERTs are two
  statements in autocommit mode: there is no transaction around them, and any error is rethrown.
\<close>

definition addNote :: "char crypto \<Rightarrow> store \<Rightarrow> note_input \<Rightarrow> nat outcome \<times> store" where
  "addNote L s note =
     (if \<not> isInitialized s then (Thrown NotInitialized, s)
      else
        let (encryptedContent, s1) = encrypt L s (i_content note);
            (encryptedSource, s2) = encrypt L s1 (or_empty (i_source note));
            (encryptedUrl, s3) = encrypt L s2 (or_empty (i_url note))
        in case run s3 (\<lambda>t. t\<lparr>notes_tbl := notes_tbl t @
                     [\<lparr>n_id = next_note_id t, n_content = encryptedContent,
                       n_source = encryptedSource, n_url = encryptedUrl,
                       n_timestamp = i_timestamp note, n_version = 1,
                       n_is_deleted = False, n_is_sensitive = False\<rparr>],
                   next_note_id := Suc (next_note_id t)\<rparr>) of
             Thrown e \<Rightarrow> (Thrown e, s3)
           | Returned s4 \<Rightarrow>
               let noteId = next_note_id s3
               in (case addNoteVersion s4 noteId
                          \<lparr>vd_content = encryptedContent, vd_source = encryptedSource,
                           vd_url = encryptedUrl, vd_version = 1, vd_change_type = ''create''\<rparr> of
                     (Thrown e, s5) \<Rightarrow> (Thrown e, s5)
                   | (Returned u, s5) \<Rightarrow> (Returned noteId, s5)))"

text \<open>
  \<open>updateNote(noteId, updatedContent)\<close>: only a note that is not soft-deleted is found; the
  new content is stored with the next version number and recorded with the unchanged source
  and url.
\<close>

definition updateNote :: "char crypto \<Rightarrow> store \<Rightarrow> nat \<Rightarrow> string \<Rightarrow> bool outcome \<times> store" where
  "updateNote L s noteId updatedContent =
     (if \<not> isInitialized s then (Thrown NotInitialized, s)
      else case get_row (\<lambda>n. n_id n = noteId \<and> \<not> n_is_deleted n) (notes_tbl s) of
             None \<Rightarrow> (Thrown NoteNotFound, s)
           | Some currentNote \<Rightarrow>
               let (encryptedContent, s1) = encrypt L s updatedContent;
                   newVersion = n_version currentNote + 1
               in (case run s1 (\<lambda>t. t\<lparr>notes_tbl := map (\<lambda>n. if n_id n = noteId
                              then n\<lparr>n_content := encryptedContent, n_version := newVersion\<rparr>
                              else n) (notes_tbl t)\<rparr>) of
                     Thrown e \<Rightarrow> (Thrown e, s1)
                   | Returned s2 \<Rightarrow>
                       (case addNoteVersion s2 noteId
                               \<lparr>vd_content = encryptedContent, vd_source = n_source currentNote,
                                vd_url = n_url currentNote, vd_version = newVersion,
                                vd_change_type = ''update''\<rparr> of
                          (Thrown e, s3) \<Rightarrow> (Thrown e, s3)
                        | (Returned u, s3) \<Rightarrow> (Returned True, s3))))"

text \<open>
  \<open>deleteNote(id)\<close>: \<open>UPDATE notes SET is_deleted = TRUE WHERE id = ?\<close>; \<open>result.changes\<close>
  is the number of rows the WHERE clause selects, whatever their old value. On success the
  row is read back and a \<open>delete\<close> entry recorded with \<open>note.version + 1\<close>; the statement does
  not touch the \<open>version\<close> column. Any error is caught and turned into \<open>false\<close>.
\<close>

definition deleteNote :: "store \<Rightarrow> nat \<Rightarrow> bool outcome \<times> store" where
  "deleteNote s ident =
     (if \<not> isInitialized s then (Thrown NotInitialized, s)
      else case run s (\<lambda>t. t\<lparr>notes_tbl := map (\<lambda>n. if n_id n = ident
                         then n\<lparr>n_is_deleted := True\<rparr> else n) (notes_tbl t)\<rparr>) of
             Thrown e \<Rightarrow> (Returned False, s)
           | Returned s1 \<Rightarrow>
               let changes = length (filter (\<lambda>n. n_id n = ident) (notes_tbl s));
                   success = (changes > 0)
               in if success then
                    (case get_row (\<lambda>n. n_id n = ident) (notes_tbl s1) of
                       Some note \<Rightarrow>
                         (case addNoteVersion s1 ident
                                 \<lparr>vd_content = n_content note, vd_source = n_source note,
                                  vd_url = n_url note, vd_version = n_version note + 1,
                                  vd_change_type = ''delete''\<rparr> of
                            (Thrown e, s2) \<Rightarrow> (Returned False, s2)
                          | (Returned u, s2) \<Rightarrow> (Returned success, s2))
                     | None \<Rightarrow> (Returned success, s1))
                  else (Returned success, s1))"

text \<open>Decimal digits of a number, as a template literal prints it.\<close>

fun show_nat :: "nat \<Rightarrow> string" where
  "show_nat n =
     (if n < 10 then [char_of (48 + n)]
      else show_nat (n div 10) @ [char_of (48 + n mod 10)])"

declare show_nat.simps [simp del]

text \<open>
  \<open>restoreNoteVersion(noteId, version)\<close>: the snapshot is looked up by note id and version,
  the current row by id alone (no test of \<open>is_deleted\<close>); \<open>currentNote.version\<close> of a missing
  row is a TypeError.
\<close>

definition restoreNoteVersion :: "store \<Rightarrow> nat \<Rightarrow> nat \<Rightarrow> bool outcome \<times> store" where
  "restoreNoteVersion s noteId version =
     (if \<not> isInitialized s then (Thrown NotInitialized, s)
      else case get_row (\<lambda>v. v_note_id v = noteId \<and> v_version v = version)
                  (note_versions_tbl s) of
             None \<Rightarrow> (Thrown VersionNotFound, s)
           | Some versionData \<Rightarrow>
               (case get_row (\<lambda>n. n_id n = noteId) (notes_tbl s) of
                  None \<Rightarrow> (Thrown TypeError, s)
                | Some currentNote \<Rightarrow>
                    let newVersion = n_version currentNote + 1
                    in (case run s (\<lambda>t. t\<lparr>notes_tbl := map (\<lambda>n. if n_id n = noteId
                                  then n\<lparr>n_content := v_content versionData,
                                         n_source := v_source versionData,
                                         n_url := v_url versionData,
                                         n_version := newVersion\<rparr>
                                  else n) (notes_tbl t)\<rparr>) of
                         Thrown e \<Rightarrow> (Thrown e, s)
                       | Returned s1 \<Rightarrow>
                           (case addNoteVersion s1 noteId
                                   \<lparr>vd_content = v_content versionData,
                                    vd_source = v_source versionData,
                                    vd_url = v_url versionData, vd_version = newVersion,
                                    vd_change_type = ''restore_v'' @ show_nat version\<rparr> of
                              (Thrown e, s2) \<Rightarrow> (Thrown e, s2)
                            | (Returned u, s2) \<Rightarrow> (Returned True, s2)))))"

subsection \<open>Reading and searching\<close>

text \<open>
  \<open>getNotes(limit, offset)\<close>: the non-deleted rows, newest first, windowed; with encryption
  enabled the three text fields of every row are passed through \<open>decrypt\<close>. The SELECT
  statements of the model do not fail, so the \<open>catch\<close> that returns \<open>[]\<close> has no counterpart.
\<close>

definition getNotes :: "char crypto \<Rightarrow> store \<Rightarrow> nat \<Rightarrow> nat \<Rightarrow> note_row list outcome" where
  "getNotes L s limit offset =
     (if \<not> isInitialized s then Thrown NotInitialized
      else
        let rows = limit_offset limit offset
                     (order_by_timestamp_desc (filter (\<lambda>n. \<not> n_is_deleted n) (notes_tbl s)))
        in if isEncryptionEnabled s then
             Returned (map (\<lambda>note. note\<lparr>n_content := decrypt L s (n_content note),
                                          n_source := decrypt L s (n_source note),
                                          n_url := decrypt L s (n_url note)\<rparr>) rows)
           else Returned rows)"

text \<open>
  \<open>String.prototype.toLowerCase\<close> and \<open>String.prototype.includes\<close>. A character of the
  model is a code unit below 256 (Latin-1). Besides \<open>A\<close> to \<open>Z\<close>, JavaScript lowers the
  accented capitals U+00C0 to U+00DE, except the multiplication sign U+00D7.
\<close>

definition lower_char :: "char \<Rightarrow> char" where
  "lower_char c =
     (let n = (of_char c :: nat)
      in if (65 \<le> n \<and> n \<le> 90) \<or> (192 \<le> n \<and> n \<le> 214) \<or> (216 \<le> n \<and> n \<le> 222)
         then char_of (n + 32) else c)"

definition toLowerCase :: "string \<Rightarrow> string" where
  "toLowerCase x = map lower_char x"

fun includes_str :: "string \<Rightarrow> string \<Rightarrow> bool" where
  "includes_str [] sub = (sub = [])"
| "includes_str (c # cs) sub = (prefix sub (c # cs) \<or> includes_str cs sub)"

text \<open>
  SQLite's \<open>text LIKE pattern\<close> (no ESCAPE clause). Its matcher \<open>patternCompare\<close> lets \<open>%\<close>
  match any run of characters, \<open>_\<close> any single character, and every other character itself
  up to the case of the ASCII letters \<open>A\<close> to \<open>Z\<close>; SQLite folds no other character. Both
  operands are read as NUL-terminated text: what follows a character U+0000 in the pattern
  or in the text is not looked at.
\<close>

definition ascii_lower :: "char \<Rightarrow> char" where
  "ascii_lower c =
     (let n = (of_char c :: nat) in if 65 \<le> n \<and> n \<le> 90 then char_of (n + 32) else c)"

fun patternCompare :: "string \<Rightarrow> string \<Rightarrow> bool" where
  "patternCompare [] t = (t = [])"
| "patternCompare (p # ps) [] = (p = CHR ''%'' \<and> patternCompare ps [])"
| "patternCompare (p # ps) (c # cs) =
     (if p = CHR ''%'' then patternCompare ps (c # cs) \<or> patternCompare (p # ps) cs
      else (p = CHR ''_'' \<or> ascii_lower p = ascii_lower c) \<and> patternCompare ps cs)"

definition until_nul :: "string \<Rightarrow> string" where
  "until_nul x = takeWhile (\<lambda>c. (of_char c :: nat) \<noteq> 0) x"

definition sql_like :: "string \<Rightarrow> string \<Rightarrow> bool" where
  "sql_like pattern t = patternCompare (until_nul pattern) (until_nul t)"

text \<open>
  The LIKE function refuses a pattern of more than 50000 bytes (the default of
  \<open>SQLITE_MAX_LIKE_PATTERN_LENGTH\<close>) with the error \<open>LIKE or GLOB pattern too complex\<close>. Text
  is bound as UTF-8, where a character below U+0080 takes one byte and the other characters
  of the model two.
\<close>

definition utf8_bytes :: "string \<Rightarrow> nat" where
  "utf8_bytes x = sum_list (map (\<lambda>c. if (of_char c :: nat) < 128 then 1 else 2) x)"

text \<open>
  The objects that \<open>searchNotes\<close> returns. With encryption enabled they are the objects of
  \<open>getNotes\<close>, which selects the column \<open>is_deleted\<close>; the SELECT of the other path does not
  list that column, and its objects have no such property.
\<close>

record note_object =
  o_id :: nat
  o_content :: string
  o_source :: string
  o_url :: string
  o_timestamp :: int
  o_version :: nat
  o_is_deleted :: "bool option"
  o_is_sensitive :: bool

definition object_of_row :: "note_row \<Rightarrow> note_object" where
  "object_of_row n =
     \<lparr>o_id = n_id n, o_content = n_content n, o_source = n_source n, o_url = n_url n,
      o_timestamp = n_timestamp n, o_version = n_version n,
      o_is_deleted = Some (n_is_deleted n), o_is_sensitive = n_is_sensitive n\<rparr>"

definition search_columns :: "note_row \<Rightarrow> note_object" where
  "search_columns n =
     \<lparr>o_id = n_id n, o_content = n_content n, o_source = n_source n, o_url = n_url n,
      o_timestamp = n_timestamp n, o_version = n_version n,
      o_is_deleted = None, o_is_sensitive = n_is_sensitive n\<rparr>"

text \<open>
  \<open>searchNotes(query, limit, offset)\<close>: with encryption enabled, \<open>getNotes(1000, 0)\<close> is
  filtered in memory and sliced; otherwise one SELECT with LIKE patterns does the work. When
  the pattern is too long, the statement raises its error at the first row it tests, and
  the \<open>catch\<close> returns \<open>[]\<close>; when it tests no row it selects none: the result is \<open>[]\<close> either
  way.
\<close>

definition searchNotes ::
  "char crypto \<Rightarrow> store \<Rightarrow> string \<Rightarrow> nat \<Rightarrow> nat \<Rightarrow> note_object list outcome" where
  "searchNotes L s query limit offset =
     (if \<not> isInitialized s then Thrown NotInitialized
      else if isEncryptionEnabled s then
        (case getNotes L s 1000 0 of
           Thrown e \<Rightarrow> Returned []
         | Returned allNotes \<Rightarrow>
             let searchLower = toLowerCase query;
                 filteredNotes = filter (\<lambda>note.
                     includes_str (toLowerCase (n_content note)) searchLower \<or>
                     (n_source note \<noteq> [] \<and> includes_str (toLowerCase (n_source note)) searchLower))
                   allNotes
             in Returned (map object_of_row (slice offset (offset + limit) filteredNotes)))
      else
        let searchPattern = ''%'' @ query @ ''%''
        in if utf8_bytes searchPattern > 50000 then Returned []
           else Returned (map search_columns (limit_offset limit offset
                  (order_by_timestamp_desc
                     (filter (\<lambda>n. (sql_like searchPattern (n_content n) \<or>
                                    sql_like searchPattern (n_source n)) \<and> \<not> n_is_deleted n)
                        (notes_tbl s))))))"

text \<open>
  \<open>getSearchCount(query)\<close>; an exception is caught and turned into 0, which is also the
  count when a pattern that is too long is tested on no row.
\<close>

definition getSearchCount :: "char crypto \<Rightarrow> store \<Rightarrow> string \<Rightarrow> nat outcome" where
  "getSearchCount L s query =
     (if \<not> isInitialized s then Thrown NotInitialized
      else if isEncryptionEnabled s then
        (case searchNotes L s query 1000 0 of
           Thrown e \<Rightarrow> Returned 0
         | Returned searchResults \<Rightarrow> Returned (length searchResults))
      else
        let searchPattern = ''%'' @ query @ ''%''
        in if utf8_bytes searchPattern > 50000 then Returned 0
           else Returned (length (filter (\<lambda>n. (sql_like searchPattern (n_content n) \<or>
                                                sql_like searchPattern (n_source n)) \<and>
                                               \<not> n_is_deleted n) (notes_tbl s))))"

subsection \<open>The key file: unlocking and changing the password\<close>

text \<open>
  What the two asynchronous methods resolve to: \<open>{success: true, ...}\<close>,
  \<open>{success: false, error: '...'}\<close> with a message of the class, or
  \<open>{success: false, error: error.message}\<close> for a caught exception.
\<close>

datatype 'a reply = Success 'a | Failure string | Caught error

text \<open>
  \<open>initializeEncryption(password)\<close>. A password is used only when it is truthy. When the
  key file cannot be read, a truthy password creates a new key; the fields \<open>created\<close> and
  \<open>updated\<close> of the key file are dates that nothing reads and are left out.
\<close>

definition initializeEncryption ::
  "'c crypto \<Rightarrow> store \<Rightarrow> string option \<Rightarrow> bool reply \<times> store" where
  "initializeEncryption L s password =
     (case keyfile s of
        Some keyInfo \<Rightarrow>
          if truthy password then
            (let testKey = PBKDF2 L (or_empty password) (k_salt keyInfo)
             in if testKey = k_key keyInfo then
                  (Success False, s\<lparr>encryptionKey := Some testKey, isEncryptionEnabled := True\<rparr>)
                else (Failure ''Invalid password'', s))
          else (Failure ''Password required for encrypted database'', s)
      | None \<Rightarrow>
          if truthy password then
            (let salt = randomBytes L (rng s);
                 key = PBKDF2 L (or_empty password) salt;
                 s1 = s\<lparr>rng := Suc (rng s)\<rparr>
             in if keyfile_writable s1 then
                  (Success True, s1\<lparr>keyfile := Some \<lparr>k_key = key, k_salt = salt\<rparr>,
                                     encryptionKey := Some key, isEncryptionEnabled := True\<rparr>)
                else (Caught FileWriteError, s1))
          else (Success False, s\<lparr>isEncryptionEnabled := False\<rparr>))"

text \<open>
  \<open>db.transaction(fn)()\<close>: when \<open>fn\<close> throws, the tables are rolled back and the exception
  is rethrown; what \<open>fn\<close> did to the fields of the instance stays.
\<close>

definition transaction ::
  "(store \<Rightarrow> error option \<times> store) \<Rightarrow> store \<Rightarrow> error option \<times> store" where
  "transaction fn s =
     (case fn s of
        (None, s') \<Rightarrow> (None, s')
      | (Some e, s') \<Rightarrow>
          (Some e, s'\<lparr>notes_tbl := notes_tbl s, note_versions_tbl := note_versions_tbl s,
                      next_note_id := next_note_id s, next_version_id := next_version_id s\<rparr>))"

text \<open>
  The first loop of the transaction of \<open>changeEncryptionPassword\<close>: each row of the snapshot
  \<open>allNotes\<close> is decrypted under the loaded key, \<open>this.encryptionKey\<close> is switched to the
  new key for the three calls of \<open>encrypt\<close> and the UPDATE, and switched back.
\<close>

fun reencrypt_notes ::
  "char crypto \<Rightarrow> string \<Rightarrow> note_row list \<Rightarrow> store \<Rightarrow> error option \<times> store" where
  "reencrypt_notes L newKey [] s = (None, s)"
| "reencrypt_notes L newKey (note # rest) s =
     (let decryptedContent = decrypt L s (n_content note);
          decryptedSource = decrypt L s (n_source note);
          decryptedUrl = decrypt L s (n_url note);
          oldEncryptionKey = encryptionKey s;
          s1 = s\<lparr>encryptionKey := Some newKey\<rparr>;
          (newEncryptedContent, s2) = encrypt L s1 decryptedContent;
          (newEncryptedSource, s3) = encrypt L s2 decryptedSource;
          (newEncryptedUrl, s4) = encrypt L s3 decryptedUrl
      in (case run s4 (\<lambda>t. t\<lparr>notes_tbl := map (\<lambda>n. if n_id n = n_id note
                         then n\<lparr>n_content := newEncryptedContent,
                                n_source := newEncryptedSource,
                                n_url := newEncryptedUrl\<rparr>
                         else n) (notes_tbl t)\<rparr>) of
            Thrown e \<Rightarrow> (Some e, s4)
          | Returned s5 \<Rightarrow>
              reencrypt_notes L newKey rest (s5\<lparr>encryptionKey := oldEncryptionKey\<rparr>)))"

text \<open>
  The second loop, over the snapshot \<open>allVersions\<close>. Its last statement reads
  \<open>oldEncryptionKey\<close>, a \<open>const\<close> declared in the body of the first loop and not in scope
  here: evaluating it raises a ReferenceError, in the first iteration, after the UPDATE of
  that row and with \<open>this.encryptionKey\<close> set to the new key.
\<close>

fun reencrypt_versions ::
  "char crypto \<Rightarrow> string \<Rightarrow> version_row list \<Rightarrow> store \<Rightarrow> error option \<times> store" where
  "reencrypt_versions L newKey [] s = (None, s)"
| "reencrypt_versions L newKey (version # rest) s =
     (let decryptedContent = decrypt L s (v_content version);
          decryptedSource = decrypt L s (v_source version);
          decryptedUrl = decrypt L s (v_url version);
          s1 = s\<lparr>encryptionKey := Some newKey\<rparr>;
          (newEncryptedContent, s2) = encrypt L s1 decryptedContent;
          (newEncryptedSource, s3) = encrypt L s2 decryptedSource;
          (newEncryptedUrl, s4) = encrypt L s3 decryptedUrl
      in (case run s4 (\<lambda>t. t\<lparr>note_versions_tbl := map (\<lambda>v. if v_id v = v_id version
                         then v\<lparr>v_content := newEncryptedContent,
                                v_source := newEncryptedSource,
                                v_url := newEncryptedUrl\<rparr>
                         else v) (note_versions_tbl t)\<rparr>) of
            Thrown e \<Rightarrow> (Some e, s4)
          | Returned s5 \<Rightarrow> (Some ReferenceError, s5)))"

text \<open>
  \<open>changeEncryptionPassword(oldPassword, newPassword)\<close>: the old password is checked against
  the key file, a new salt and key are made, both tables are rewritten inside one
  transaction, then the key file is replaced and the new key loaded. Every exception is
  caught and reported. The method does not test \<open>isInitialized\<close>; it needs \<open>this.db\<close>, and
  \<open>prepare\<close> on the null of an instance that never opened its database is a TypeError.
\<close>

definition changeEncryptionPassword ::
  "char crypto \<Rightarrow> store \<Rightarrow> string \<Rightarrow> string \<Rightarrow> unit reply \<times> store" where
  "changeEncryptionPassword L s oldPassword newPassword =
     (if \<not> isEncryptionEnabled s then (Failure ''Encryption not enabled'', s)
      else case keyfile s of
             None \<Rightarrow> (Caught FileReadError, s)
           | Some keyInfo \<Rightarrow>
               let oldKey = PBKDF2 L oldPassword (k_salt keyInfo)
               in if oldKey \<noteq> k_key keyInfo then (Failure ''Invalid current password'', s)
                  else
                    let newSalt = randomBytes L (rng s);
                        newKey = PBKDF2 L newPassword newSalt;
                        s1 = s\<lparr>rng := Suc (rng s)\<rparr>
                    in if \<not> db_open s1 then (Caught TypeError, s1)
                       else
                         let allNotes = notes_tbl s1;
                             allVersions = note_versions_tbl s1
                         in (case transaction (\<lambda>t.
                                     (case reencrypt_notes L newKey allNotes t of
                                        (Some e, t') \<Rightarrow> (Some e, t')
                                      | (None, t') \<Rightarrow>
                                          reencrypt_versions L newKey allVersions t')) s1 of
                               (Some e, s2) \<Rightarrow> (Caught e, s2)
                             | (None, s2) \<Rightarrow>
                                 if \<not> keyfile_writable s2 then (Caught FileWriteError, s2)
                                 else (Success (),
                                       s2\<lparr>keyfile := Some \<lparr>k_key = newKey, k_salt = newSalt\<rparr>,
                                          encryptionKey := Some newKey\<rparr>)))"

subsection \<open>What is assumed of the libraries\<close>

text \<open>
  A cipher round-trips on the texts \<open>W\<close>: under a non-empty key, encryption of such a text
  does not throw, its output is non-empty (CryptoJS prints \<open>Salted__\<close>, the salt and the
  blocks in Base64) and decrypts to the plaintext under the same key. Nothing is assumed of
  the other texts. A derived key is a non-empty string (64 hex digits).
\<close>

definition aes_round_trip_on :: "('c list \<Rightarrow> bool) \<Rightarrow> 'c crypto \<Rightarrow> bool" where
  "aes_round_trip_on W L =
     (\<forall>x k r. k \<noteq> [] \<and> W x \<longrightarrow>
        (\<exists>c. AES_encrypt L x k r = Some c \<and> c \<noteq> [] \<and> AES_decrypt L c k = Some x))"


text \<open>
  A text of 16-bit code units is well formed when it has no unpaired surrogate. On any
  other text \<open>encodeURIComponent\<close>, through which CryptoJS turns the argument of
  \<open>AES.encrypt\<close> into UTF-8, throws a URIError.
\<close>

definition is_high :: "16 word \<Rightarrow> bool" where
  "is_high u = (0xD800 \<le> u \<and> u \<le> 0xDBFF)"

definition is_low :: "16 word \<Rightarrow> bool" where
  "is_low u = (0xDC00 \<le> u \<and> u \<le> 0xDFFF)"

fun well_formed :: "16 word list \<Rightarrow> bool" where
  "well_formed [] = True"
| "well_formed [u] = (\<not> is_high u \<and> \<not> is_low u)"
| "well_formed (u # v # rest) =
     (if is_high u then is_low v \<and> well_formed rest
      else \<not> is_low u \<and> well_formed (v # rest))"

definition units :: "string \<Rightarrow> 16 word list" where
  "units x = map of_char x"

text \<open>
  A small instance used to run the definitions. The key is written in front of the
  plaintext; what was not written under the key decrypts to the empty text, without an
  exception (the usual answer of CryptoJS under a wrong key).
\<close>

definition demo_crypto :: "char crypto" where
  "demo_crypto =
     \<lparr>PBKDF2 = (\<lambda>p salt. ''k['' @ p @ '']'' @ salt),
      AES_encrypt = (\<lambda>x k r. Some (''<'' @ k @ ''>'' @ x)),
      AES_decrypt = (\<lambda>c k. if prefix (''<'' @ k @ ''>'') c
                             then Some (drop (length k + 2) c) else Some []),
      randomBytes = (\<lambda>r. replicate (Suc r) (CHR ''s''))\<rparr>"

text \<open>
  The same cipher with a check of what it decrypts: it throws on what was not written under
  the key, as CryptoJS does when the bytes it obtains are not valid UTF-8.
\<close>

definition strict_crypto :: "char crypto" where
  "strict_crypto =
     demo_crypto\<lparr>AES_decrypt := (\<lambda>c k. if prefix (''<'' @ k @ ''>'') c
                                         then Some (drop (length k + 2) c) else None)\<rparr>"

text \<open>
  The cipher on 16-bit code units; encryption throws on a text that is not well formed.
\<close>

definition demo_crypto16 :: "16 word crypto" where
  "demo_crypto16 =
     \<lparr>PBKDF2 = (\<lambda>p salt. ''k['' @ p @ '']'' @ salt),
      AES_encrypt = (\<lambda>x k r. if well_formed x then Some (units (''<'' @ k @ ''>'') @ x)
                               else None),
      AES_decrypt = (\<lambda>c k. if prefix (units (''<'' @ k @ ''>'')) c
                             then Some (drop (length k + 2) c) else Some []),
      randomBytes = (\<lambda>r. replicate (Suc r) (CHR ''s''))\<rparr>"

text \<open>A fresh instance after \<open>initialize\<close>: empty tables, no key file yet.\<close>

definition fresh_store :: store where
  "fresh_store =
     \<lparr>isInitialized = True, db_open = True, encryptionKey = None,
      isEncryptionEnabled = False,
      notes_tbl = [], note_versions_tbl = [], next_note_id = 1, next_version_id = 1,
      keyfile = None, keyfile_writable = True, rng = 0, io_budget = None\<rparr>"

text \<open>The same instance unlocked with the password \<open>pw\<close> on first use.\<close>

definition unlocked_store :: store where
  "unlocked_store = snd (initializeEncryption demo_crypto fresh_store (Some ''pw''))"

text \<open>
  An unlocked instance whose only note has a content that was written under another key
  (\<open>Buy milk\<close> under the key \<open>k[other]s\<close>): under the loaded key it is unreadable.
\<close>

definition damaged_store :: store where
  "damaged_store =
     unlocked_store\<lparr>notes_tbl :=
       [\<lparr>n_id = 1, n_content = ''<k[other]s>Buy milk'', n_source = ''<k[pw]s>Safari'',
         n_url = ''<k[pw]s>'', n_timestamp = 10, n_version = 1,
         n_is_deleted = False, n_is_sensitive = False\<rparr>],
       next_note_id := 2\<rparr>"

text \<open>The scenario of the specification: one note is added, then soft-deleted twice.\<close>

definition milk_note :: note_input where
  "milk_note =
     \<lparr>i_content = ''Buy milk'', i_source = Some ''Safari'',
      i_url = Some ''https://example.com'', i_timestamp = 10\<rparr>"

definition one_note_store :: store where
  "one_note_store = snd (addNote demo_crypto unlocked_store milk_note)"

definition deleted_store :: store where
  "deleted_store = snd (deleteNote one_note_store 1)"

definition twice_deleted_store :: store where
  "twice_deleted_store = snd (deleteNote deleted_store 1)"

text \<open>The same unlocked instance on a disk that accepts one more write and then fails.\<close>

definition failing_disk_store :: store where
  "failing_disk_store = unlocked_store\<lparr>io_budget := Some 1\<rparr>"


text \<open>The note of the scenario stored by an instance that runs without encryption.\<close>

definition plain_note_store :: store where
  "plain_note_store = snd (addNote demo_crypto fresh_store milk_note)"

text \<open>
  Pairs of instances that hold the same notes, one encrypted and one in plain text: 1001
  notes with the content \<open>milk\<close> and distinct timestamps (\<open>milk_rows\<close> in plain text); a note whose content is the single letter U+00C9 (a
  capital E with acute accent); a note with the content \<open>a\<close>, U+0000, \<open>b\<close>; and a note of
  49999 letters \<open>a\<close>.
\<close>

definition crowded_rows :: "(string \<Rightarrow> string) \<Rightarrow> note_row list" where
  "crowded_rows enc =
     map (\<lambda>i. \<lparr>n_id = Suc i, n_content = enc ''milk'', n_source = enc [], n_url = enc [],
                n_timestamp = int i, n_version = 1, n_is_deleted = False,
                n_is_sensitive = False\<rparr>) [0..<1001]"

definition crowded_store :: store where
  "crowded_store =
     unlocked_store\<lparr>notes_tbl := crowded_rows (\<lambda>x. ''<k[pw]s>'' @ x), next_note_id := 1002\<rparr>"

definition crowded_plain_store :: store where
  "crowded_plain_store =
     fresh_store\<lparr>notes_tbl := crowded_rows (\<lambda>x. x), next_note_id := 1002\<rparr>"

definition milk_rows :: "note_row list" where
  "milk_rows = crowded_rows (\<lambda>x. x)"

definition text_note :: "string \<Rightarrow> note_input" where
  "text_note x = \<lparr>i_content = x, i_source = None, i_url = None, i_timestamp = 10\<rparr>"

definition accent_store :: store where
  "accent_store = snd (addNote demo_crypto unlocked_store (text_note [char_of (201 :: nat)]))"

definition accent_plain_store :: store where
  "accent_plain_store = snd (addNote demo_crypto fresh_store (text_note [char_of (201 :: nat)]))"

definition nul_text :: string where
  "nul_text = [CHR ''a'', char_of (0 :: nat), CHR ''b'']"

definition nul_store :: store where
  "nul_store = snd (addNote demo_crypto unlocked_store (text_note nul_text))"

definition nul_plain_store :: store where
  "nul_plain_store = snd (addNote demo_crypto fresh_store (text_note nul_text))"

definition long_text :: string where
  "long_text = replicate 49999 (CHR ''a'')"

definition long_store :: store where
  "long_store = snd (addNote demo_crypto unlocked_store (text_note long_text))"

definition long_plain_store :: store where
  "long_plain_store = snd (addNote demo_crypto fresh_store (text_note long_text))"

text \<open>
  Text without the wildcards of LIKE, and text made of the ASCII characters other than
  U+0000.
\<close>

definition wildcard_free :: "string \<Rightarrow> bool" where
  "wildcard_free x = (CHR ''%'' \<notin> set x \<and> CHR ''_'' \<notin> set x)"

definition ascii_text :: "string \<Rightarrow> bool" where
  "ascii_text x = (\<forall>c \<in> set x. 0 < (of_char c :: nat) \<and> (of_char c :: nat) < 128)"

section \<open>Auxiliary facts\<close>

subsection \<open>Facts about encrypt and decrypt\<close>



lemma encrypt_off:
  "\<not> isEncryptionEnabled s \<or> \<not> truthy (encryptionKey s) \<Longrightarrow> encrypt L s x = (x, s)"
  by (auto simp: encrypt_def)

lemma decrypt_off:
  "\<not> isEncryptionEnabled s \<or> \<not> truthy (encryptionKey s) \<Longrightarrow> decrypt L s x = x"
  by (auto simp: decrypt_def)

lemma encrypt_state: "\<exists>r. snd (encrypt L s x) = s\<lparr>rng := r\<rparr>"
proof (cases "\<not> isEncryptionEnabled s \<or> \<not> truthy (encryptionKey s)")
  case True
  then have "snd (encrypt L s x) = s\<lparr>rng := rng s\<rparr>" by (simp add: encrypt_off)
  then show ?thesis by blast
next
  case False
  then show ?thesis
    by (auto simp: encrypt_def truthy_def split: option.splits)
qed

lemma decrypt_cong:
  "isEncryptionEnabled s' = isEncryptionEnabled s \<Longrightarrow> encryptionKey s' = encryptionKey s
   \<Longrightarrow> decrypt L s' c = decrypt L s c"
  by (simp add: decrypt_def)

lemma encrypt_on:
  assumes "aes_round_trip_on W L" "isEncryptionEnabled s" "encryptionKey s = Some k" "k \<noteq> []"
    and "W x"
  shows "fst (encrypt L s x) \<noteq> [] \<and> AES_decrypt L (fst (encrypt L s x)) k = Some x"
proof -
  from assms(1,4,5) obtain c where c: "AES_encrypt L x k (rng s) = Some c" "c \<noteq> []"
      "AES_decrypt L c k = Some x"
    unfolding aes_round_trip_on_def by blast
  then have "fst (encrypt L s x) = c"
    using assms(2,3,4) by (simp add: encrypt_def truthy_def)
  with c show ?thesis by simp
qed

lemma decrypt_encrypt:
  assumes "aes_round_trip_on W L" "W x"
  shows "decrypt L (snd (encrypt L s x)) (fst (encrypt L s x)) = x"
proof (cases "\<not> isEncryptionEnabled s \<or> \<not> truthy (encryptionKey s)")
  case True
  then show ?thesis by (simp add: encrypt_off decrypt_off)
next
  case False
  then obtain k where k: "isEncryptionEnabled s" "encryptionKey s = Some k" "k \<noteq> []"
    by (auto simp: truthy_def split: option.splits)
  obtain r where r: "snd (encrypt L s x) = s\<lparr>rng := r\<rparr>" using encrypt_state by blast
  have "decrypt L (snd (encrypt L s x)) (fst (encrypt L s x)) = decrypt L s (fst (encrypt L s x))"
    by (rule decrypt_cong) (simp_all add: r)
  also have "\<dots> = x"
    using encrypt_on [OF assms(1) k assms(2)] k by (simp add: decrypt_def truthy_def)
  finally show ?thesis .
qed

lemma unlocked_store_eq:
  "unlocked_store =
     \<lparr>isInitialized = True, db_open = True, encryptionKey = Some ''k[pw]s'', isEncryptionEnabled = True,
      notes_tbl = [], note_versions_tbl = [], next_note_id = 1, next_version_id = 1,
      keyfile = Some \<lparr>k_key = ''k[pw]s'', k_salt = ''s''\<rparr>, keyfile_writable = True,
      rng = 1, io_budget = None\<rparr>"
  by (simp add: unlocked_store_def initializeEncryption_def fresh_store_def demo_crypto_def
      truthy_def or_empty_def Let_def)

lemma damaged_store_eq:
  "damaged_store =
     \<lparr>isInitialized = True, db_open = True, encryptionKey = Some ''k[pw]s'', isEncryptionEnabled = True,
      notes_tbl = [\<lparr>n_id = 1, n_content = ''<k[other]s>Buy milk'',
                    n_source = ''<k[pw]s>Safari'', n_url = ''<k[pw]s>'', n_timestamp = 10,
                    n_version = 1, n_is_deleted = False, n_is_sensitive = False\<rparr>],
      note_versions_tbl = [], next_note_id = 2, next_version_id = 1,
      keyfile = Some \<lparr>k_key = ''k[pw]s'', k_salt = ''s''\<rparr>, keyfile_writable = True,
      rng = 1, io_budget = None\<rparr>"
  by (simp add: damaged_store_def unlocked_store_eq)

subsection \<open>Facts about the statements and the scenario\<close>

lemma run_None: "io_budget s = None \<Longrightarrow> run s f = Returned (f s)"
  by (simp add: run_def)

lemma run_Suc: "io_budget s = Some (Suc b) \<Longrightarrow> run s f = Returned (f (s\<lparr>io_budget := Some b\<rparr>))"
  by (simp add: run_def)

lemma run_0: "io_budget s = Some 0 \<Longrightarrow> run s f = Thrown SqliteError"
  by (simp add: run_def)

lemma get_row_distinct:
  assumes "distinct (map key rows)" "r \<in> set rows"
  shows "get_row (\<lambda>n. key n = key r) rows = Some r"
  using assms by (induction rows) (auto simp: get_row_def)

lemma ball_map_preserved:
  assumes "\<forall>x \<in> set xs. P x \<longrightarrow> Q x" "\<And>x. P (f x) = P x" "\<And>x. Q (f x) = Q x"
  shows "\<forall>x \<in> set (map f xs). P x \<longrightarrow> Q x"
  using assms by auto

lemma key_unique:
  assumes "distinct (map key rows)" "a \<in> set rows" "b \<in> set rows" "key a = key b"
  shows "a = b"
  using assms by (simp add: distinct_map inj_on_def)

lemma set_order_by [simp]: "set (order_by_timestamp_desc rows) = set rows"
  by (simp add: order_by_timestamp_desc_def)

lemma getNotes_ids:
  assumes "getNotes L s limit offset = Returned rows"
  shows "n_id ` set rows \<subseteq> n_id ` {n \<in> set (notes_tbl s). \<not> n_is_deleted n}"
proof -
  let ?W = "limit_offset limit offset
              (order_by_timestamp_desc (filter (\<lambda>n. \<not> n_is_deleted n) (notes_tbl s)))"
  have W: "set ?W \<subseteq> {n \<in> set (notes_tbl s). \<not> n_is_deleted n}"
    by (auto simp: limit_offset_def dest!: in_set_takeD in_set_dropD)
  have "n_id ` set rows = n_id ` set ?W"
  proof (cases "isEncryptionEnabled s")
    case True
    then have "map n_id rows = map n_id ?W"
      using assms by (auto simp: getNotes_def Let_def split: if_splits)
    then show ?thesis by (metis set_map)
  next
    case False
    then show ?thesis
      using assms by (auto simp: getNotes_def Let_def split: if_splits)
  qed
  with W show ?thesis by blast
qed

lemma one_note_store_eq:
  "one_note_store =
     \<lparr>isInitialized = True, db_open = True, encryptionKey = Some ''k[pw]s'', isEncryptionEnabled = True,
      notes_tbl = [\<lparr>n_id = 1, n_content = ''<k[pw]s>Buy milk'',
                    n_source = ''<k[pw]s>Safari'', n_url = ''<k[pw]s>https://example.com'',
                    n_timestamp = 10, n_version = 1, n_is_deleted = False,
                    n_is_sensitive = False\<rparr>],
      note_versions_tbl = [\<lparr>v_id = 1, v_note_id = 1, v_content = ''<k[pw]s>Buy milk'',
                            v_source = ''<k[pw]s>Safari'',
                            v_url = ''<k[pw]s>https://example.com'', v_version = 1,
                            v_change_type = ''create''\<rparr>],
      next_note_id = 2, next_version_id = 2,
      keyfile = Some \<lparr>k_key = ''k[pw]s'', k_salt = ''s''\<rparr>, keyfile_writable = True,
      rng = 4, io_budget = None\<rparr>"
  by (simp add: one_note_store_def addNote_def milk_note_def unlocked_store_eq encrypt_def
      truthy_def demo_crypto_def or_empty_def run_def addNoteVersion_def Let_def)

lemma delete_one_note:
  "deleteNote one_note_store 1 =
     (Returned True,
      one_note_store\<lparr>notes_tbl :=
          [\<lparr>n_id = 1, n_content = ''<k[pw]s>Buy milk'',
                    n_source = ''<k[pw]s>Safari'', n_url = ''<k[pw]s>https://example.com'',
                    n_timestamp = 10, n_version = 1, n_is_deleted = True,
                    n_is_sensitive = False\<rparr>],
        note_versions_tbl := 
           [\<lparr>v_id = 1, v_note_id = 1, v_content = ''<k[pw]s>Buy milk'',
                            v_source = ''<k[pw]s>Safari'',
                            v_url = ''<k[pw]s>https://example.com'', v_version = 1,
                            v_change_type = ''create''\<rparr>,
            \<lparr>v_id = 2, v_note_id = 1, v_content = ''<k[pw]s>Buy milk'',
                            v_source = ''<k[pw]s>Safari'',
                            v_url = ''<k[pw]s>https://example.com'', v_version = 2,
                            v_change_type = ''delete''\<rparr>],
        next_version_id := 3\<rparr>)"
  by (simp add: one_note_store_eq deleteNote_def run_def addNoteVersion_def get_row_def Let_def)

lemma show_nat_1: "show_nat (Suc 0) = ''1''"
  by code_simp

lemma deleted_store_eq:
  "deleted_store =
     \<lparr>isInitialized = True, db_open = True, encryptionKey = Some ''k[pw]s'', isEncryptionEnabled = True,
      notes_tbl = [\<lparr>n_id = 1, n_content = ''<k[pw]s>Buy milk'',
                    n_source = ''<k[pw]s>Safari'', n_url = ''<k[pw]s>https://example.com'',
                    n_timestamp = 10, n_version = 1, n_is_deleted = True,
                    n_is_sensitive = False\<rparr>],
      note_versions_tbl = [\<lparr>v_id = 1, v_note_id = 1, v_content = ''<k[pw]s>Buy milk'',
                            v_source = ''<k[pw]s>Safari'',
                            v_url = ''<k[pw]s>https://example.com'', v_version = 1,
                            v_change_type = ''create''\<rparr>,
                           \<lparr>v_id = 2, v_note_id = 1, v_content = ''<k[pw]s>Buy milk'',
                            v_source = ''<k[pw]s>Safari'',
                            v_url = ''<k[pw]s>https://example.com'', v_version = 2,
                            v_change_type = ''delete''\<rparr>],
      next_note_id = 2, next_version_id = 3,
      keyfile = Some \<lparr>k_key = ''k[pw]s'', k_salt = ''s''\<rparr>, keyfile_writable = True,
      rng = 4, io_budget = None\<rparr>"
  by (simp only: deleted_store_def delete_one_note snd_conv) (simp add: one_note_store_eq)

lemma delete_deleted_note:
  "deleteNote deleted_store 1 =
     (Returned True,
      deleted_store\<lparr>note_versions_tbl :=
           [\<lparr>v_id = 1, v_note_id = 1, v_content = ''<k[pw]s>Buy milk'',
             v_source = ''<k[pw]s>Safari'', v_url = ''<k[pw]s>https://example.com'',
             v_version = 1, v_change_type = ''create''\<rparr>,
            \<lparr>v_id = 2, v_note_id = 1, v_content = ''<k[pw]s>Buy milk'',
             v_source = ''<k[pw]s>Safari'', v_url = ''<k[pw]s>https://example.com'',
             v_version = 2, v_change_type = ''delete''\<rparr>,
            \<lparr>v_id = 3, v_note_id = 1, v_content = ''<k[pw]s>Buy milk'',
             v_source = ''<k[pw]s>Safari'', v_url = ''<k[pw]s>https://example.com'',
             v_version = 2, v_change_type = ''delete''\<rparr>],
        next_version_id := 4\<rparr>)"
  by (simp add: deleted_store_eq deleteNote_def run_def addNoteVersion_def get_row_def Let_def)

lemma add_on_failing_disk:
  "addNote demo_crypto failing_disk_store milk_note =
     (Thrown SqliteError,
      failing_disk_store\<lparr>notes_tbl :=
          [\<lparr>n_id = 1, n_content = ''<k[pw]s>Buy milk'', n_source = ''<k[pw]s>Safari'',
            n_url = ''<k[pw]s>https://example.com'', n_timestamp = 10, n_version = 1,
            n_is_deleted = False, n_is_sensitive = False\<rparr>],
        next_note_id := 2, rng := 4, io_budget := Some 0\<rparr>)"
  by (simp add: failing_disk_store_def addNote_def milk_note_def unlocked_store_eq encrypt_def
      truthy_def demo_crypto_def or_empty_def run_def addNoteVersion_def Let_def)

subsection \<open>Facts about the password rotation\<close>

lemma encrypt_shape: "\<exists>c r. encrypt L s x = (c, s\<lparr>rng := r\<rparr>)"
  using encrypt_state [of L s x] by (metis prod.collapse)

lemma encrypt_good:
  assumes "aes_round_trip_on W L" "isEncryptionEnabled s" "encryptionKey s = Some k" "k \<noteq> []"
    and "W x" "encrypt L s x = (c, s')"
  shows "c \<noteq> [] \<and> AES_decrypt L c k = Some x"
  using encrypt_on [OF assms(1-5)] assms(6) by simp

lemma run_cases:
  "(\<exists>b. run s f = Returned (f (s\<lparr>io_budget := b\<rparr>))) \<or>
   (run s f = Thrown SqliteError \<and> io_budget s = Some 0)"
proof (cases "io_budget s")
  case None
  have "s\<lparr>io_budget := io_budget s\<rparr> = s" by simp
  then have same: "s\<lparr>io_budget := None\<rparr> = s" unfolding None .
  have "run s f = Returned (f s)" using None by (simp add: run_def)
  then have "run s f = Returned (f (s\<lparr>io_budget := None\<rparr>))"
    by (simp only: same)
  then show ?thesis by blast
next
  case (Some b)
  then show ?thesis by (cases b) (auto simp: run_def)
qed

lemma reencrypt_notes_step:
  "\<exists>c1 c2 c3 r.
     (aes_round_trip_on W L \<and> isEncryptionEnabled s \<and> newKey \<noteq> [] \<and>
      W (decrypt L s (n_content note)) \<and> W (decrypt L s (n_source note)) \<and>
      W (decrypt L s (n_url note)) \<longrightarrow>
        c1 \<noteq> [] \<and> AES_decrypt L c1 newKey = Some (decrypt L s (n_content note)) \<and>
        c2 \<noteq> [] \<and> AES_decrypt L c2 newKey = Some (decrypt L s (n_source note)) \<and>
        c3 \<noteq> [] \<and> AES_decrypt L c3 newKey = Some (decrypt L s (n_url note))) \<and>
     reencrypt_notes L newKey (note # rest) s =
       (case run (s\<lparr>encryptionKey := Some newKey, rng := r\<rparr>)
               (\<lambda>t. t\<lparr>notes_tbl := map (\<lambda>n. if n_id n = n_id note
                          then n\<lparr>n_content := c1, n_source := c2, n_url := c3\<rparr>
                          else n) (notes_tbl t)\<rparr>) of
          Thrown e \<Rightarrow> (Some e, s\<lparr>encryptionKey := Some newKey, rng := r\<rparr>)
        | Returned s5 \<Rightarrow>
            reencrypt_notes L newKey rest (s5\<lparr>encryptionKey := encryptionKey s\<rparr>))"
proof -
  let ?s1 = "s\<lparr>encryptionKey := Some newKey\<rparr>"
  obtain c1 r1 where e1: "encrypt L ?s1 (decrypt L s (n_content note)) = (c1, ?s1\<lparr>rng := r1\<rparr>)"
    using encrypt_shape by blast
  obtain c2 r2 where e2: "encrypt L (?s1\<lparr>rng := r1\<rparr>) (decrypt L s (n_source note)) =
      (c2, ?s1\<lparr>rng := r1, rng := r2\<rparr>)"
    using encrypt_shape by blast
  obtain c3 r3 where e3: "encrypt L (?s1\<lparr>rng := r2\<rparr>) (decrypt L s (n_url note)) =
      (c3, ?s1\<lparr>rng := r2, rng := r3\<rparr>)"
    using encrypt_shape by blast
  have e2': "encrypt L (?s1\<lparr>rng := r1\<rparr>) (decrypt L s (n_source note)) = (c2, ?s1\<lparr>rng := r2\<rparr>)"
    using e2 by simp
  have e3': "encrypt L (?s1\<lparr>rng := r2\<rparr>) (decrypt L s (n_url note)) = (c3, ?s1\<lparr>rng := r3\<rparr>)"
    using e3 by simp
  have eq: "reencrypt_notes L newKey (note # rest) s =
       (case run (s\<lparr>encryptionKey := Some newKey, rng := r3\<rparr>)
               (\<lambda>t. t\<lparr>notes_tbl := map (\<lambda>n. if n_id n = n_id note
                          then n\<lparr>n_content := c1, n_source := c2, n_url := c3\<rparr>
                          else n) (notes_tbl t)\<rparr>) of
          Thrown e \<Rightarrow> (Some e, s\<lparr>encryptionKey := Some newKey, rng := r3\<rparr>)
        | Returned s5 \<Rightarrow>
            reencrypt_notes L newKey rest (s5\<lparr>encryptionKey := encryptionKey s\<rparr>))"
    by (simp add: e1 e2' e3' Let_def)
  have good: "c1 \<noteq> [] \<and> AES_decrypt L c1 newKey = Some (decrypt L s (n_content note)) \<and>
        c2 \<noteq> [] \<and> AES_decrypt L c2 newKey = Some (decrypt L s (n_source note)) \<and>
        c3 \<noteq> [] \<and> AES_decrypt L c3 newKey = Some (decrypt L s (n_url note))"
    if h: "aes_round_trip_on W L" "isEncryptionEnabled s" "newKey \<noteq> []"
      "W (decrypt L s (n_content note))" "W (decrypt L s (n_source note))"
      "W (decrypt L s (n_url note))"
    using encrypt_good [OF h(1) _ _ h(3) h(4) e1] encrypt_good [OF h(1) _ _ h(3) h(5) e2']
      encrypt_good [OF h(1) _ _ h(3) h(6) e3'] h(2)
    by simp
  show ?thesis
    apply (rule exI [of _ c1], rule exI [of _ c2], rule exI [of _ c3], rule exI [of _ r3])
    using good eq by blast
qed


lemma reencrypt_notes_frame:
  "keyfile (snd (reencrypt_notes L k rows t)) = keyfile t \<and>
   keyfile_writable (snd (reencrypt_notes L k rows t)) = keyfile_writable t \<and>
   note_versions_tbl (snd (reencrypt_notes L k rows t)) = note_versions_tbl t \<and>
   isEncryptionEnabled (snd (reencrypt_notes L k rows t)) = isEncryptionEnabled t"
proof (induction rows arbitrary: t)
  case Nil
  show ?case by simp
next
  case (Cons nt rest)
  obtain c1 c2 c3 r where eq: "reencrypt_notes L k (nt # rest) t =
       (case run (t\<lparr>encryptionKey := Some k, rng := r\<rparr>)
               (\<lambda>t. t\<lparr>notes_tbl := map (\<lambda>n. if n_id n = n_id nt
                          then n\<lparr>n_content := c1, n_source := c2, n_url := c3\<rparr>
                          else n) (notes_tbl t)\<rparr>) of
          Thrown e \<Rightarrow> (Some e, t\<lparr>encryptionKey := Some k, rng := r\<rparr>)
        | Returned s5 \<Rightarrow>
            reencrypt_notes L k rest (s5\<lparr>encryptionKey := encryptionKey t\<rparr>))"
    using reencrypt_notes_step [of "\<lambda>x. True" L t k nt rest] by blast
  let ?t4 = "t\<lparr>encryptionKey := Some k, rng := r\<rparr>"
  let ?f = "\<lambda>t. t\<lparr>notes_tbl := map (\<lambda>n. if n_id n = n_id nt
                          then n\<lparr>n_content := c1, n_source := c2, n_url := c3\<rparr>
                          else n) (notes_tbl t)\<rparr>"
  from run_cases [of ?t4 ?f] show ?case
  proof
    assume "\<exists>b. run ?t4 ?f = Returned (?f (?t4\<lparr>io_budget := b\<rparr>))"
    then obtain b where b: "run ?t4 ?f = Returned (?f (?t4\<lparr>io_budget := b\<rparr>))" by blast
    show ?thesis
      unfolding eq b using Cons.IH [of "(?f (?t4\<lparr>io_budget := b\<rparr>))\<lparr>encryptionKey := encryptionKey t\<rparr>"]
      by simp
  next
    assume "run ?t4 ?f = Thrown SqliteError \<and> io_budget ?t4 = Some 0"
    then show ?thesis unfolding eq by simp
  qed
qed

lemma reencrypt_versions_frame:
  "keyfile (snd (reencrypt_versions L k rows t)) = keyfile t \<and>
   keyfile_writable (snd (reencrypt_versions L k rows t)) = keyfile_writable t"
proof (cases rows)
  case Nil
  then show ?thesis by simp
next
  case (Cons version rest)
  let ?s1 = "t\<lparr>encryptionKey := Some k\<rparr>"
  obtain c1 r1 where e1: "encrypt L ?s1 (decrypt L t (v_content version)) = (c1, ?s1\<lparr>rng := r1\<rparr>)"
    using encrypt_shape by blast
  obtain c2 r2 where e2: "encrypt L (?s1\<lparr>rng := r1\<rparr>) (decrypt L t (v_source version)) =
      (c2, ?s1\<lparr>rng := r1, rng := r2\<rparr>)"
    using encrypt_shape by blast
  obtain c3 r3 where e3: "encrypt L (?s1\<lparr>rng := r2\<rparr>) (decrypt L t (v_url version)) =
      (c3, ?s1\<lparr>rng := r2, rng := r3\<rparr>)"
    using encrypt_shape by blast
  have e2': "encrypt L (?s1\<lparr>rng := r1\<rparr>) (decrypt L t (v_source version)) = (c2, ?s1\<lparr>rng := r2\<rparr>)"
    using e2 by simp
  have e3': "encrypt L (?s1\<lparr>rng := r2\<rparr>) (decrypt L t (v_url version)) = (c3, ?s1\<lparr>rng := r3\<rparr>)"
    using e3 by simp
  let ?t4 = "t\<lparr>encryptionKey := Some k, rng := r3\<rparr>"
  let ?f = "\<lambda>t. t\<lparr>note_versions_tbl := map (\<lambda>v. if v_id v = v_id version
                         then v\<lparr>v_content := c1, v_source := c2, v_url := c3\<rparr>
                         else v) (note_versions_tbl t)\<rparr>"
  have eq: "reencrypt_versions L k rows t =
      (case run ?t4 ?f of Thrown e \<Rightarrow> (Some e, ?t4) | Returned s5 \<Rightarrow> (Some ReferenceError, s5))"
    by (simp add: Cons e1 e2' e3' Let_def)
  from run_cases [of ?t4 ?f] show ?thesis
  proof
    assume "\<exists>b. run ?t4 ?f = Returned (?f (?t4\<lparr>io_budget := b\<rparr>))"
    then obtain b where b: "run ?t4 ?f = Returned (?f (?t4\<lparr>io_budget := b\<rparr>))" by blast
    show ?thesis unfolding eq b by simp
  next
    assume "run ?t4 ?f = Thrown SqliteError \<and> io_budget ?t4 = Some 0"
    then show ?thesis unfolding eq by simp
  qed
qed

lemma reencrypt_versions_None:
  "reencrypt_versions L k rows t = (None, t') \<Longrightarrow> rows = [] \<and> t' = t"
  by (cases rows) (auto simp: Let_def split: prod.splits outcome.splits)


lemma rotation_body_frame:
  "keyfile (snd (case reencrypt_notes L k ns t of
                   (Some e, t') \<Rightarrow> (Some e, t')
                 | (None, t') \<Rightarrow> reencrypt_versions L k vs t')) = keyfile t \<and>
   keyfile_writable (snd (case reencrypt_notes L k ns t of
                   (Some e, t') \<Rightarrow> (Some e, t')
                 | (None, t') \<Rightarrow> reencrypt_versions L k vs t')) = keyfile_writable t"
proof -
  obtain r t1 where n: "reencrypt_notes L k ns t = (r, t1)" by (cases "reencrypt_notes L k ns t")
  have f1: "keyfile t1 = keyfile t" "keyfile_writable t1 = keyfile_writable t"
    using reencrypt_notes_frame [of L k ns t] n by simp_all
  show ?thesis
  proof (cases r)
    case None
    then show ?thesis
      using n f1 reencrypt_versions_frame [of L k vs t1] by simp
  next
    case (Some e)
    then show ?thesis using n f1 by simp
  qed
qed

lemma transaction_frame:
  assumes "\<And>t. keyfile (snd (fn t)) = keyfile t \<and>
                keyfile_writable (snd (fn t)) = keyfile_writable t"
    and "transaction fn s = (r, s')"
  shows "keyfile s' = keyfile s \<and> keyfile_writable s' = keyfile_writable s \<and>
         (r \<noteq> None \<longrightarrow> notes_tbl s' = notes_tbl s \<and>
                        note_versions_tbl s' = note_versions_tbl s)"
proof -
  obtain r0 t where f: "fn s = (r0, t)" by (cases "fn s")
  have k: "keyfile t = keyfile s" "keyfile_writable t = keyfile_writable s"
    using assms(1) [of s] f by simp_all
  show ?thesis
    using assms(2) f k by (cases r0) (auto simp: transaction_def)
qed

lemma initializeEncryption_reply_cong:
  assumes "keyfile s' = keyfile s" "keyfile_writable s' = keyfile_writable s"
  shows "fst (initializeEncryption L s' p) = fst (initializeEncryption L s p)"
  using assms by (simp add: initializeEncryption_def Let_def split: option.splits)

lemma changeEncryptionPassword_main:
  assumes "isEncryptionEnabled s" "keyfile s = Some keyInfo"
    and "PBKDF2 L oldPassword (k_salt keyInfo) = k_key keyInfo" "db_open s"
  shows "changeEncryptionPassword L s oldPassword newPassword =
     (case transaction (\<lambda>t.
             case reencrypt_notes L (PBKDF2 L newPassword (randomBytes L (rng s)))
                    (notes_tbl s) t of
               (Some e, t') \<Rightarrow> (Some e, t')
             | (None, t') \<Rightarrow>
                 reencrypt_versions L (PBKDF2 L newPassword (randomBytes L (rng s)))
                   (note_versions_tbl s) t')
           (s\<lparr>rng := Suc (rng s)\<rparr>) of
        (Some e, s2) \<Rightarrow> (Caught e, s2)
      | (None, s2) \<Rightarrow>
          if \<not> keyfile_writable s2 then (Caught FileWriteError, s2)
          else (Success (),
                s2\<lparr>keyfile := Some \<lparr>k_key = PBKDF2 L newPassword (randomBytes L (rng s)),
                                      k_salt = randomBytes L (rng s)\<rparr>,
                   encryptionKey := Some (PBKDF2 L newPassword (randomBytes L (rng s)))\<rparr>))"
  using assms by (simp add: changeEncryptionPassword_def Let_def)



lemma transaction_None:
  "transaction fn s = (None, s') \<Longrightarrow> fn s = (None, s')"
  by (auto simp: transaction_def split: prod.splits option.splits)

lemma changeEncryptionPassword_Success:
  assumes "changeEncryptionPassword L s oldPassword newPassword = (Success (), s')"
  shows "isEncryptionEnabled s \<and> db_open s \<and>
         (\<exists>keyInfo. keyfile s = Some keyInfo \<and>
            PBKDF2 L oldPassword (k_salt keyInfo) = k_key keyInfo)"
  using assms
  by (auto simp: changeEncryptionPassword_def Let_def split: if_splits option.splits)



lemma rotate_damaged:
  "changeEncryptionPassword demo_crypto damaged_store ''pw'' ''new'' =
     (Success (),
      \<lparr>isInitialized = True, db_open = True, encryptionKey = Some ''k[new]ss'',
       isEncryptionEnabled = True,
       notes_tbl = [\<lparr>n_id = 1, n_content = ''<k[new]ss>'',
                     n_source = ''<k[new]ss>Safari'', n_url = ''<k[new]ss>'',
                     n_timestamp = 10, n_version = 1, n_is_deleted = False,
                     n_is_sensitive = False\<rparr>],
       note_versions_tbl = [], next_note_id = 2, next_version_id = 1,
       keyfile = Some \<lparr>k_key = ''k[new]ss'', k_salt = ''ss''\<rparr>, keyfile_writable = True,
       rng = 5, io_budget = None\<rparr>)"
  by (simp add: changeEncryptionPassword_def damaged_store_eq transaction_def encrypt_def
      decrypt_def truthy_def run_def demo_crypto_def Let_def)

lemma rotate_damaged_strict:
  "changeEncryptionPassword strict_crypto damaged_store ''pw'' ''new'' =
     (Success (),
      \<lparr>isInitialized = True, db_open = True, encryptionKey = Some ''k[new]ss'',
       isEncryptionEnabled = True,
       notes_tbl = [\<lparr>n_id = 1, n_content = ''<k[new]ss><k[other]s>Buy milk'',
                     n_source = ''<k[new]ss>Safari'', n_url = ''<k[new]ss>'',
                     n_timestamp = 10, n_version = 1, n_is_deleted = False,
                     n_is_sensitive = False\<rparr>],
       note_versions_tbl = [], next_note_id = 2, next_version_id = 1,
       keyfile = Some \<lparr>k_key = ''k[new]ss'', k_salt = ''ss''\<rparr>, keyfile_writable = True,
       rng = 5, io_budget = None\<rparr>)"
  by (simp add: changeEncryptionPassword_def damaged_store_eq transaction_def encrypt_def
      decrypt_def truthy_def run_def demo_crypto_def strict_crypto_def Let_def)


lemma rotate_one_note:
  "changeEncryptionPassword demo_crypto one_note_store ''pw'' ''new'' =
     (Caught ReferenceError,
      one_note_store\<lparr>encryptionKey := Some ''k[new]sssss'', rng := 11\<rparr>)"
  by (simp add: changeEncryptionPassword_def one_note_store_eq transaction_def encrypt_def
      decrypt_def truthy_def run_def demo_crypto_def Let_def eval_nat_numeral)

lemma changeEncryptionPassword_success_no_history:
  assumes "changeEncryptionPassword L s oldPassword newPassword = (Success (), s')"
  shows "note_versions_tbl s = []"
proof -
  let ?newKey = "PBKDF2 L newPassword (randomBytes L (rng s))"
  let ?s1 = "s\<lparr>rng := Suc (rng s)\<rparr>"
  let ?fn = "\<lambda>t. case reencrypt_notes L ?newKey (notes_tbl s) t of
                   (Some e, t') \<Rightarrow> (Some e, t')
                 | (None, t') \<Rightarrow> reencrypt_versions L ?newKey (note_versions_tbl s) t'"
  from changeEncryptionPassword_Success [OF assms] obtain keyInfo where
    en: "isEncryptionEnabled s" and init: "db_open s"
    and kf: "keyfile s = Some keyInfo"
    and ok: "PBKDF2 L oldPassword (k_salt keyInfo) = k_key keyInfo"
    by blast
  obtain r s2 where t: "transaction ?fn ?s1 = (r, s2)" by (cases "transaction ?fn ?s1")
  have "r = None"
    using assms unfolding changeEncryptionPassword_main [OF en kf ok init] t
    by (cases r) simp_all
  then have body: "?fn ?s1 = (None, s2)" using t transaction_None by blast
  obtain r1 t1 where n: "reencrypt_notes L ?newKey (notes_tbl s) ?s1 = (r1, t1)"
    by (cases "reencrypt_notes L ?newKey (notes_tbl s) ?s1")
  have r1: "r1 = None" using body n by (cases r1) simp_all
  have "reencrypt_versions L ?newKey (note_versions_tbl s) t1 = (None, s2)"
    using body n r1 by simp
  then show ?thesis using reencrypt_versions_None by blast
qed

subsection \<open>Facts about LIKE, case folding and ordering\<close>

lemma patternCompare_percent: "patternCompare [CHR ''%''] t"
  by (induction t) simp_all

lemma patternCompare_prefix:
  assumes "wildcard_free q"
  shows "patternCompare (q @ [CHR ''%'']) t = prefix (map ascii_lower q) (map ascii_lower t)"
  using assms
proof (induction q arbitrary: t)
  case Nil
  show ?case by (simp add: patternCompare_percent)
next
  case (Cons p ps)
  then have p: "p \<noteq> CHR ''%''" "p \<noteq> CHR ''_''" and ps: "wildcard_free ps"
    by (auto simp: wildcard_free_def)
  show ?case
  proof (cases t)
    case Nil
    then show ?thesis using p by simp
  next
    case (Cons c cs)
    then show ?thesis using p Cons.IH [OF ps, of cs] by simp
  qed
qed

lemma patternCompare_contains:
  assumes "wildcard_free q"
  shows "patternCompare (CHR ''%'' # q @ [CHR ''%'']) t =
         includes_str (map ascii_lower t) (map ascii_lower q)"
proof (induction t)
  case Nil
  have "patternCompare (CHR ''%'' # q @ [CHR ''%'']) [] = patternCompare (q @ [CHR ''%'']) []"
    by simp
  also have "\<dots> = (q = [])" using patternCompare_prefix [OF assms, of "[]"] by simp
  finally show ?case by simp
next
  case (Cons c cs)
  have "patternCompare (CHR ''%'' # q @ [CHR ''%'']) (c # cs) =
        (patternCompare (q @ [CHR ''%'']) (c # cs) \<or>
         patternCompare (CHR ''%'' # q @ [CHR ''%'']) cs)"
    by simp
  then show ?case
    using patternCompare_prefix [OF assms, of "c # cs"] Cons.IH by simp
qed

lemma until_nul_ascii: "ascii_text x \<Longrightarrow> until_nul x = x"
  by (simp add: until_nul_def ascii_text_def)

lemma until_nul_pattern: "ascii_text q \<Longrightarrow> until_nul (CHR ''%'' # q @ [CHR ''%'']) = CHR ''%'' # q @ [CHR ''%'']"
  by (simp add: until_nul_def ascii_text_def)

lemma sql_like_contains:
  assumes "wildcard_free q" "ascii_text q" "ascii_text t"
  shows "sql_like (CHR ''%'' # q @ [CHR ''%'']) t =
         includes_str (map ascii_lower t) (map ascii_lower q)"
  by (simp only: sql_like_def until_nul_pattern [OF assms(2)] until_nul_ascii [OF assms(3)]
      patternCompare_contains [OF assms(1)])

lemma utf8_bytes_append [simp]: "utf8_bytes (x @ y) = utf8_bytes x + utf8_bytes y"
  by (simp add: utf8_bytes_def)

lemma utf8_bytes_Nil [simp]: "utf8_bytes [] = 0"
  by (simp add: utf8_bytes_def)

lemma utf8_bytes_Cons [simp]:
  "utf8_bytes (c # x) = (if (of_char c :: nat) < 128 then 1 else 2) + utf8_bytes x"
  by (simp add: utf8_bytes_def)

lemma utf8_bytes_ascii: "ascii_text x \<Longrightarrow> utf8_bytes x = length x"
  by (induction x) (simp_all add: utf8_bytes_def ascii_text_def)

lemma utf8_bytes_long_text: "utf8_bytes long_text = 49999"
proof -
  have "utf8_bytes (replicate n (CHR ''a'')) = n" for n
    by (induction n) (simp_all add: utf8_bytes_def)
  then show ?thesis by (simp only: long_text_def)
qed

lemma includes_str_refl: "includes_str x x"
  by (cases x) simp_all

lemma lower_char_ascii: "(of_char c :: nat) < 128 \<Longrightarrow> lower_char c = ascii_lower c"
  by (simp add: lower_char_def ascii_lower_def Let_def)

lemma toLowerCase_ascii: "ascii_text x \<Longrightarrow> toLowerCase x = map ascii_lower x"
  by (simp add: toLowerCase_def ascii_text_def lower_char_ascii)

lemma insort_key_map:
  "insort_key f (g x) (map g ys) = map g (insort_key (\<lambda>y. f (g y)) x ys)"
  by (induction ys) simp_all

lemma sort_key_map:
  "sort_key f (map g xs) = map g (sort_key (\<lambda>y. f (g y)) xs)"
  by (induction xs) (simp_all add: insort_key_map)

lemma order_by_map:
  assumes "\<And>n. n_timestamp (g n) = n_timestamp n"
  shows "order_by_timestamp_desc (map g rows) = map g (order_by_timestamp_desc rows)"
  by (simp add: order_by_timestamp_desc_def sort_key_map assms)

lemma order_by_filter:
  "order_by_timestamp_desc (filter P rows) = filter P (order_by_timestamp_desc rows)"
  by (simp add: order_by_timestamp_desc_def filter_sort)

lemma length_order_by [simp]: "length (order_by_timestamp_desc rows) = length rows"
  by (simp add: order_by_timestamp_desc_def)


lemma includes_str_Nil [simp]: "includes_str t []"
  by (cases t) simp_all

lemma match_agree:
  assumes q: "wildcard_free query" "ascii_text query"
    and a: "ascii_text content" "ascii_text src"
  shows "(sql_like (''%'' @ query @ ''%'') content \<or> sql_like (''%'' @ query @ ''%'') src) =
         (includes_str (toLowerCase content) (toLowerCase query) \<or>
          (src \<noteq> [] \<and> includes_str (toLowerCase src) (toLowerCase query)))"
proof -
  have c: "sql_like (''%'' @ query @ ''%'') content =
           includes_str (toLowerCase content) (toLowerCase query)"
    using sql_like_contains [OF q a(1)] q(2) a(1) by (simp add: toLowerCase_ascii)
  have s: "sql_like (''%'' @ query @ ''%'') src =
           includes_str (toLowerCase src) (toLowerCase query)"
    using sql_like_contains [OF q a(2)] q(2) a(2) by (simp add: toLowerCase_ascii)
  show ?thesis
  proof (cases "src = []")
    case False
    show ?thesis unfolding c s using False by simp
  next
    case True
    show ?thesis
    proof (cases "query = []")
      case True
      show ?thesis unfolding c s using True by (simp add: toLowerCase_def)
    next
      case False
      show ?thesis unfolding c s using False True by (simp add: toLowerCase_def)
    qed
  qed
qed

lemma plain_note_store_eq:
  "plain_note_store =
     \<lparr>isInitialized = True, db_open = True, encryptionKey = None,
      isEncryptionEnabled = False,
      notes_tbl = [\<lparr>n_id = 1, n_content = ''Buy milk'', n_source = ''Safari'',
                    n_url = ''https://example.com'', n_timestamp = 10, n_version = 1,
                    n_is_deleted = False, n_is_sensitive = False\<rparr>],
      note_versions_tbl = [\<lparr>v_id = 1, v_note_id = 1, v_content = ''Buy milk'',
                            v_source = ''Safari'', v_url = ''https://example.com'',
                            v_version = 1, v_change_type = ''create''\<rparr>],
      next_note_id = 2, next_version_id = 2,
      keyfile = None, keyfile_writable = True, rng = 0, io_budget = None\<rparr>"
  by (simp add: plain_note_store_def addNote_def milk_note_def fresh_store_def encrypt_def
      truthy_def or_empty_def run_def addNoteVersion_def Let_def)

lemma scenario_same_notes:
  "getNotes demo_crypto one_note_store 50 0 = getNotes demo_crypto plain_note_store 50 0"
  by code_simp

lemma percent_encrypted: "searchNotes demo_crypto one_note_store ''%'' 50 0 = Returned []"
  by code_simp

lemma percent_plain:
  "searchNotes demo_crypto plain_note_store ''%'' 50 0 =
     Returned [\<lparr>o_id = 1, o_content = ''Buy milk'', o_source = ''Safari'',
                o_url = ''https://example.com'', o_timestamp = 10, o_version = 1,
                o_is_deleted = None, o_is_sensitive = False\<rparr>]"
  by code_simp

lemma accent_same_notes:
  "getNotes demo_crypto accent_store 50 0 = getNotes demo_crypto accent_plain_store 50 0"
  by code_simp

lemma accent_encrypted:
  "searchNotes demo_crypto accent_store [char_of (233 :: nat)] 50 0 =
     Returned [\<lparr>o_id = 1, o_content = [char_of (201 :: nat)], o_source = [],
                o_url = [], o_timestamp = 10, o_version = 1,
                o_is_deleted = Some False, o_is_sensitive = False\<rparr>]"
  by code_simp

lemma accent_plain:
  "searchNotes demo_crypto accent_plain_store [char_of (233 :: nat)] 50 0 = Returned []"
  by code_simp

lemma nul_same_notes:
  "getNotes demo_crypto nul_store 50 0 = getNotes demo_crypto nul_plain_store 50 0"
  by code_simp

lemma nul_encrypted:
  "searchNotes demo_crypto nul_store ''b'' 50 0 =
     Returned [\<lparr>o_id = 1, o_content = [CHR ''a'', char_of (0 :: nat), CHR ''b''],
                o_source = [], o_url = [], o_timestamp = 10, o_version = 1,
                o_is_deleted = Some False, o_is_sensitive = False\<rparr>]"
  by code_simp

lemma nul_plain: "searchNotes demo_crypto nul_plain_store ''b'' 50 0 = Returned []"
  by code_simp

lemma long_store_eq:
  "long_store =
     \<lparr>isInitialized = True, db_open = True, encryptionKey = Some ''k[pw]s'',
      isEncryptionEnabled = True,
      notes_tbl = [\<lparr>n_id = 1, n_content = ''<k[pw]s>'' @ long_text, n_source = ''<k[pw]s>'',
                    n_url = ''<k[pw]s>'', n_timestamp = 10, n_version = 1,
                    n_is_deleted = False, n_is_sensitive = False\<rparr>],
      note_versions_tbl = [\<lparr>v_id = 1, v_note_id = 1, v_content = ''<k[pw]s>'' @ long_text,
                            v_source = ''<k[pw]s>'', v_url = ''<k[pw]s>'', v_version = 1,
                            v_change_type = ''create''\<rparr>],
      next_note_id = 2, next_version_id = 2,
      keyfile = Some \<lparr>k_key = ''k[pw]s'', k_salt = ''s''\<rparr>, keyfile_writable = True,
      rng = 4, io_budget = None\<rparr>"
  by (simp add: long_store_def addNote_def text_note_def unlocked_store_eq encrypt_def
      truthy_def demo_crypto_def or_empty_def run_def addNoteVersion_def Let_def)

lemma long_plain_store_eq:
  "long_plain_store =
     \<lparr>isInitialized = True, db_open = True, encryptionKey = None,
      isEncryptionEnabled = False,
      notes_tbl = [\<lparr>n_id = 1, n_content = long_text, n_source = [], n_url = [],
                    n_timestamp = 10, n_version = 1, n_is_deleted = False,
                    n_is_sensitive = False\<rparr>],
      note_versions_tbl = [\<lparr>v_id = 1, v_note_id = 1, v_content = long_text, v_source = [],
                            v_url = [], v_version = 1, v_change_type = ''create''\<rparr>],
      next_note_id = 2, next_version_id = 2,
      keyfile = None, keyfile_writable = True, rng = 0, io_budget = None\<rparr>"
  by (simp add: long_plain_store_def addNote_def text_note_def fresh_store_def encrypt_def
      truthy_def or_empty_def run_def addNoteVersion_def Let_def)

lemma long_getNotes:
  "getNotes demo_crypto long_store 1000 0 =
     Returned [\<lparr>n_id = 1, n_content = long_text, n_source = [], n_url = [],
                n_timestamp = 10, n_version = 1, n_is_deleted = False,
                n_is_sensitive = False\<rparr>]"
  "getNotes demo_crypto long_plain_store 1000 0 =
     Returned [\<lparr>n_id = 1, n_content = long_text, n_source = [], n_url = [],
                n_timestamp = 10, n_version = 1, n_is_deleted = False,
                n_is_sensitive = False\<rparr>]"
  by (simp_all add: getNotes_def long_store_eq long_plain_store_eq limit_offset_def
      order_by_timestamp_desc_def decrypt_def truthy_def demo_crypto_def Let_def)

lemma long_same_notes:
  "getNotes demo_crypto long_store 1000 0 = getNotes demo_crypto long_plain_store 1000 0"
  by (simp only: long_getNotes)

lemma long_encrypted:
  "searchNotes demo_crypto long_store long_text 50 0 =
     Returned [\<lparr>o_id = 1, o_content = long_text, o_source = [], o_url = [],
                o_timestamp = 10, o_version = 1, o_is_deleted = Some False,
                o_is_sensitive = False\<rparr>]"
proof -
  have i: "isInitialized long_store" "isEncryptionEnabled long_store"
    by (simp_all add: long_store_eq)
  show ?thesis
    by (simp add: searchNotes_def i long_getNotes includes_str_refl slice_def
        object_of_row_def Let_def)
qed

lemma long_plain: "searchNotes demo_crypto long_plain_store long_text 50 0 = Returned []"
proof -
  have i: "isInitialized long_plain_store" "\<not> isEncryptionEnabled long_plain_store"
    by (simp_all add: long_plain_store_eq)
  have "utf8_bytes (''%'' @ long_text @ ''%'') = 50001"
    by (simp add: utf8_bytes_long_text)
  then show ?thesis by (simp add: searchNotes_def i Let_def)
qed

lemma milk_encrypted:
  "searchNotes demo_crypto one_note_store ''MILK'' 50 0 =
     Returned [\<lparr>o_id = 1, o_content = ''Buy milk'', o_source = ''Safari'',
                o_url = ''https://example.com'', o_timestamp = 10, o_version = 1,
                o_is_deleted = Some False, o_is_sensitive = False\<rparr>]"
  by code_simp

lemma milk_plain:
  "searchNotes demo_crypto plain_note_store ''MILK'' 50 0 =
     Returned [\<lparr>o_id = 1, o_content = ''Buy milk'', o_source = ''Safari'',
                o_url = ''https://example.com'', o_timestamp = 10, o_version = 1,
                o_is_deleted = None, o_is_sensitive = False\<rparr>]"
  by code_simp

lemma scenario_ascii: "ascii_text ''MILK'' \<and> ascii_text ''Buy milk'' \<and> ascii_text ''Safari''"
  by (simp add: ascii_text_def)

lemma milk_wildcard_free: "wildcard_free ''MILK''"
  by (simp add: wildcard_free_def)

lemma like_milk: "sql_like ''%milk%'' ''milk''"
  by code_simp


lemma searchNotes_enabled_length:
  assumes "isInitialized s" "isEncryptionEnabled s"
  shows "\<exists>found. searchNotes L s query limit offset = Returned found \<and> length found \<le> 1000"
proof -
  obtain newest where g: "getNotes L s 1000 0 = Returned newest" and len: "length newest \<le> 1000"
    using assms by (simp add: getNotes_def limit_offset_def)
  have "length (slice a b (filter P newest)) \<le> 1000" for P a b
  proof -
    have "length (slice a b (filter P newest)) \<le> length (filter P newest)"
      by (simp add: slice_def)
    also have "\<dots> \<le> length newest" by (rule length_filter_le)
    finally show ?thesis using len by linarith
  qed
  then show ?thesis
    using assms g by (simp add: searchNotes_def Let_def)
qed

lemma crowded_flags:
  "isInitialized crowded_store" "isEncryptionEnabled crowded_store"
  "notes_tbl crowded_store = crowded_rows (\<lambda>x. ''<k[pw]s>'' @ x)"
  "isInitialized crowded_plain_store" "\<not> isEncryptionEnabled crowded_plain_store"
  "notes_tbl crowded_plain_store = crowded_rows (\<lambda>x. x)"
  by (simp_all add: crowded_store_def unlocked_store_eq crowded_plain_store_def fresh_store_def)

lemma crowded_store_eq:
  "crowded_store =
     \<lparr>isInitialized = True, db_open = True, encryptionKey = Some ''k[pw]s'',
      isEncryptionEnabled = True,
      notes_tbl = crowded_rows (\<lambda>x. ''<k[pw]s>'' @ x), note_versions_tbl = [],
      next_note_id = 1002, next_version_id = 1,
      keyfile = Some \<lparr>k_key = ''k[pw]s'', k_salt = ''s''\<rparr>, keyfile_writable = True,
      rng = 1, io_budget = None\<rparr>"
  by (simp add: crowded_store_def unlocked_store_eq)

lemma crowded_decrypted:
  "map (\<lambda>note. note\<lparr>n_content := decrypt demo_crypto crowded_store (n_content note),
                     n_source := decrypt demo_crypto crowded_store (n_source note),
                     n_url := decrypt demo_crypto crowded_store (n_url note)\<rparr>)
     (crowded_rows (\<lambda>x. ''<k[pw]s>'' @ x)) = crowded_rows (\<lambda>x. x)"
  by (simp add: crowded_rows_def decrypt_def crowded_store_eq truthy_def demo_crypto_def)

lemma crowded_not_deleted:
  "filter (\<lambda>n. \<not> n_is_deleted n) (crowded_rows enc) = crowded_rows enc"
  by (simp add: crowded_rows_def filter_map comp_def)

lemma length_crowded_rows: "length (crowded_rows enc) = 1001"
  by (simp add: crowded_rows_def)

lemma crowded_same_notes:
  "getNotes demo_crypto crowded_store 2000 0 = getNotes demo_crypto crowded_plain_store 2000 0"
proof -
  let ?D = "\<lambda>note. note\<lparr>n_content := decrypt demo_crypto crowded_store (n_content note),
                     n_source := decrypt demo_crypto crowded_store (n_source note),
                     n_url := decrypt demo_crypto crowded_store (n_url note)\<rparr>"
  have "map ?D (order_by_timestamp_desc (crowded_rows (\<lambda>x. ''<k[pw]s>'' @ x))) =
        order_by_timestamp_desc (map ?D (crowded_rows (\<lambda>x. ''<k[pw]s>'' @ x)))"
    by (rule order_by_map [symmetric]) simp
  also have "\<dots> = order_by_timestamp_desc (crowded_rows (\<lambda>x. x))"
    by (simp only: crowded_decrypted)
  finally have m: "map ?D (order_by_timestamp_desc (crowded_rows (\<lambda>x. ''<k[pw]s>'' @ x))) =
        order_by_timestamp_desc (crowded_rows (\<lambda>x. x))" .
  have e: "getNotes demo_crypto crowded_store 2000 0 =
      Returned (map ?D (take 2000 (order_by_timestamp_desc (crowded_rows (\<lambda>x. ''<k[pw]s>'' @ x)))))"
    by (simp add: getNotes_def limit_offset_def crowded_flags crowded_not_deleted)
  have p: "getNotes demo_crypto crowded_plain_store 2000 0 =
      Returned (take 2000 (order_by_timestamp_desc (crowded_rows (\<lambda>x. x))))"
    by (simp add: getNotes_def limit_offset_def crowded_flags crowded_not_deleted)
  show ?thesis unfolding e p by (simp only: take_map [symmetric] m)
qed

lemma includes_milk: "includes_str (toLowerCase ''milk'') (toLowerCase ''milk'')"
  by code_simp

lemma crowded_newest:
  "getNotes demo_crypto crowded_store 1000 0 =
     Returned (take 1000 (order_by_timestamp_desc (crowded_rows (\<lambda>x. x))))"
proof -
  let ?D = "\<lambda>note. note\<lparr>n_content := decrypt demo_crypto crowded_store (n_content note),
                     n_source := decrypt demo_crypto crowded_store (n_source note),
                     n_url := decrypt demo_crypto crowded_store (n_url note)\<rparr>"
  have "map ?D (order_by_timestamp_desc (crowded_rows (\<lambda>x. ''<k[pw]s>'' @ x))) =
        order_by_timestamp_desc (map ?D (crowded_rows (\<lambda>x. ''<k[pw]s>'' @ x)))"
    by (rule order_by_map [symmetric]) simp
  also have "\<dots> = order_by_timestamp_desc (crowded_rows (\<lambda>x. x))"
    by (simp only: crowded_decrypted)
  finally have m: "map ?D (order_by_timestamp_desc (crowded_rows (\<lambda>x. ''<k[pw]s>'' @ x))) =
        order_by_timestamp_desc (crowded_rows (\<lambda>x. x))" .
  have e: "getNotes demo_crypto crowded_store 1000 0 =
      Returned (map ?D (take 1000 (order_by_timestamp_desc (crowded_rows (\<lambda>x. ''<k[pw]s>'' @ x)))))"
    by (simp add: getNotes_def limit_offset_def crowded_flags crowded_not_deleted)
  show ?thesis unfolding e by (simp only: take_map [symmetric] m)
qed

lemma crowded_encrypted:
  "searchNotes demo_crypto crowded_store ''milk'' 2000 0 =
     Returned (map object_of_row (take 1000 (order_by_timestamp_desc milk_rows)))"
proof -
  let ?N = "take 1000 (order_by_timestamp_desc (crowded_rows (\<lambda>x. x)))"
  let ?M = "\<lambda>note. includes_str (toLowerCase (n_content note)) (toLowerCase ''milk'') \<or>
              (n_source note \<noteq> [] \<and>
               includes_str (toLowerCase (n_source note)) (toLowerCase ''milk''))"
  have content: "n_content n = ''milk''" if "n \<in> set ?N" for n
  proof -
    from that have "n \<in> set (crowded_rows (\<lambda>x. x))" by (auto dest!: in_set_takeD)
    then show ?thesis by (auto simp: crowded_rows_def)
  qed
  have f: "filter ?M ?N = ?N"
    by (rule filter_True) (simp add: content includes_milk)
  have s: "searchNotes demo_crypto crowded_store ''milk'' 2000 0 =
             Returned (map object_of_row (slice 0 (0 + 2000) (filter ?M ?N)))"
    by (simp add: searchNotes_def crowded_flags crowded_newest Let_def)
  show ?thesis unfolding s f by (simp add: slice_def milk_rows_def)
qed

lemma crowded_plain:
  "searchNotes demo_crypto crowded_plain_store ''milk'' 2000 0 =
     Returned (map search_columns (order_by_timestamp_desc milk_rows))"
proof -
  have all: "filter (\<lambda>n. (sql_like ''%milk%'' (n_content n) \<or> sql_like ''%milk%'' (n_source n)) \<and>
                        \<not> n_is_deleted n) (crowded_rows (\<lambda>x. x)) = crowded_rows (\<lambda>x. x)"
    by (rule filter_True) (auto simp: crowded_rows_def like_milk)
  have b: "utf8_bytes ''%milk%'' \<le> 50000" by simp
  have p: "searchNotes demo_crypto crowded_plain_store ''milk'' 2000 0 =
      Returned (map search_columns
        (take 2000 (order_by_timestamp_desc (crowded_rows (\<lambda>x. x)))))"
    using all b by (simp add: searchNotes_def crowded_flags limit_offset_def)
  show ?thesis unfolding p by (simp add: length_crowded_rows milk_rows_def)
qed

lemma length_milk_rows: "length milk_rows = 1001"
  by (simp add: milk_rows_def length_crowded_rows)

lemma crowded_count:
  "length (filter (\<lambda>n. \<not> n_is_deleted n) (notes_tbl crowded_store)) = 1001"
  by (simp add: crowded_flags crowded_not_deleted length_crowded_rows)

section \<open>The claims\<close>

subsection \<open>C1: a rotation that succeeds\<close>




subsection \<open>C2: the version column after a soft delete\<close>

text \<open>
  Claim C2 asks that the \<open>version\<close> of a note equal the highest version in its history, and
  be \<open>N + 1\<close> after \<open>N\<close> successful mutations. \<open>updateNote\<close> and \<open>restoreNoteVersion\<close> write
  the new version to both tables; \<open>deleteNote\<close> records \<open>note.version + 1\<close> in the history
  and leaves the column of the note as it was. After \<open>addNote\<close> and one successful
  \<open>deleteNote\<close> the note is at version 1 and its history at version 2.
\<close>

theorem deleteNote_leaves_version_behind:
  "fst (deleteNote one_note_store 1) = Returned True \<and>
   map n_version (notes_tbl deleted_store) = [1] \<and>
   map v_note_id (note_versions_tbl deleted_store) = [1, 1] \<and>
   map v_version (note_versions_tbl deleted_store) = [1, 2]"
  by (simp only: delete_one_note fst_conv) (simp add: deleted_store_eq)

subsection \<open>C3: a rotation that does not succeed\<close>

text \<open>
  Claim C3 says that a row that fails to decrypt aborts the rotation, leaving every row
  under the old key and the key file as it was. The content of note 1 of the damaged
  instance was written under another key. Under the loaded key the cipher returns the empty
  text for it, as CryptoJS mostly does: the rotation succeeds, stores the encryption of the
  empty text in the row, and replaces the key file. With the cipher that throws instead,
  \<open>decrypt\<close> catches the exception and returns the stored value: the rotation succeeds as
  well, stores the encryption of that value, and replaces the key file.
\<close>

theorem rotation_aborts_on_unreadable_row_counterexample:
  "map n_content (notes_tbl damaged_store) = [''<k[other]s>Buy milk''] \<and>
   encryptionKey damaged_store = Some ''k[pw]s'' \<and>
   keyfile damaged_store = Some \<lparr>k_key = ''k[pw]s'', k_salt = ''s''\<rparr> \<and>
   AES_decrypt demo_crypto ''<k[other]s>Buy milk'' ''k[pw]s'' = Some [] \<and>
   fst (changeEncryptionPassword demo_crypto damaged_store ''pw'' ''new'') = Success () \<and>
   map n_content
     (notes_tbl (snd (changeEncryptionPassword demo_crypto damaged_store ''pw'' ''new''))) =
     [''<k[new]ss>''] \<and>
   keyfile (snd (changeEncryptionPassword demo_crypto damaged_store ''pw'' ''new'')) =
     Some \<lparr>k_key = ''k[new]ss'', k_salt = ''ss''\<rparr> \<and>
   AES_decrypt strict_crypto ''<k[other]s>Buy milk'' ''k[pw]s'' = None \<and>
   fst (changeEncryptionPassword strict_crypto damaged_store ''pw'' ''new'') = Success () \<and>
   map n_content
     (notes_tbl (snd (changeEncryptionPassword strict_crypto damaged_store ''pw'' ''new''))) =
     [''<k[new]ss><k[other]s>Buy milk''] \<and>
   keyfile (snd (changeEncryptionPassword strict_crypto damaged_store ''pw'' ''new'')) =
     Some \<lparr>k_key = ''k[new]ss'', k_salt = ''ss''\<rparr>"
  by (simp only: rotate_damaged rotate_damaged_strict fst_conv snd_conv)
    (simp add: damaged_store_eq demo_crypto_def strict_crypto_def)

text \<open>
  Claim C3, amended. The updates of \<open>changeEncryptionPassword\<close> run inside one transaction
  and the key file is written after it. Whenever the call reports neither success nor the
  error of writing the key file, that is, whenever it fails before the commit, for whatever
  reason, both tables and the key file are exactly what they were (no partial write, every
  row under the key it was under, the old salt and key in the key file), and every unlock
  attempt is answered as before.
\<close>

theorem changeEncryptionPassword_failure_is_clean:
  assumes c: "changeEncryptionPassword L s oldPassword newPassword = (reply, s')"
    and f: "reply \<noteq> Success ()"
    and g: "reply \<noteq> Caught FileWriteError"
  shows "notes_tbl s' = notes_tbl s \<and> note_versions_tbl s' = note_versions_tbl s \<and>
         keyfile s' = keyfile s \<and>
         (\<forall>p. fst (initializeEncryption L s' p) = fst (initializeEncryption L s p))"
proof -
  have core: "notes_tbl s' = notes_tbl s \<and> note_versions_tbl s' = note_versions_tbl s \<and>
         keyfile s' = keyfile s \<and> keyfile_writable s' = keyfile_writable s"
  proof (cases "isEncryptionEnabled s")
    case False
    then show ?thesis using c by (simp add: changeEncryptionPassword_def)
  next
    case en: True
    show ?thesis
    proof (cases "keyfile s")
      case None
      then show ?thesis using c en by (simp add: changeEncryptionPassword_def)
    next
      case (Some keyInfo)
      show ?thesis
      proof (cases "PBKDF2 L oldPassword (k_salt keyInfo) = k_key keyInfo")
        case False
        then show ?thesis using c en Some by (simp add: changeEncryptionPassword_def)
      next
        case ok: True
        let ?newKey = "PBKDF2 L newPassword (randomBytes L (rng s))"
        let ?s1 = "s\<lparr>rng := Suc (rng s)\<rparr>"
        show ?thesis
        proof (cases "db_open s")
          case False
          then show ?thesis
            using c en Some ok by (auto simp: changeEncryptionPassword_def Let_def)
        next
          case init: True
          let ?fn = "\<lambda>t. case reencrypt_notes L ?newKey (notes_tbl s) t of
                           (Some e, t') \<Rightarrow> (Some e, t')
                         | (None, t') \<Rightarrow> reencrypt_versions L ?newKey (note_versions_tbl s) t'"
          obtain r s2 where t: "transaction ?fn ?s1 = (r, s2)"
            by (cases "transaction ?fn ?s1")
          have fr: "keyfile s2 = keyfile ?s1 \<and> keyfile_writable s2 = keyfile_writable ?s1 \<and>
                    (r \<noteq> None \<longrightarrow> notes_tbl s2 = notes_tbl ?s1 \<and>
                        note_versions_tbl s2 = note_versions_tbl ?s1)"
            by (rule transaction_frame [OF _ t]) (rule rotation_body_frame)
          have c': "(reply, s') =
                (case r of Some e \<Rightarrow> (Caught e, s2)
                 | None \<Rightarrow> if \<not> keyfile_writable s2 then (Caught FileWriteError, s2)
                     else (Success (), s2\<lparr>keyfile := Some \<lparr>k_key = ?newKey,
                                 k_salt = randomBytes L (rng s)\<rparr>,
                               encryptionKey := Some ?newKey\<rparr>))"
            using c unfolding changeEncryptionPassword_main [OF en Some ok init] t
            by (simp split: option.splits)
          show ?thesis
          proof (cases r)
            case None
            then show ?thesis using c' f g by (simp split: if_splits)
          next
            case (Some e)
            then show ?thesis using c' fr by simp
          qed
        qed
      qed
    qed
  qed
  then show ?thesis
    using initializeEncryption_reply_cong [of s' s L] by simp
qed

theorem changeEncryptionPassword_failure_is_clean_witness:
  "fst (changeEncryptionPassword demo_crypto one_note_store ''pw'' ''new'') =
     Caught ReferenceError \<and>
   Caught ReferenceError \<noteq> (Success () :: unit reply) \<and>
   Caught ReferenceError \<noteq> (Caught FileWriteError :: unit reply) \<and>
   length (notes_tbl one_note_store) = 1 \<and> length (note_versions_tbl one_note_store) = 1 \<and>
   notes_tbl (snd (changeEncryptionPassword demo_crypto one_note_store ''pw'' ''new'')) =
     notes_tbl one_note_store \<and>
   note_versions_tbl (snd (changeEncryptionPassword demo_crypto one_note_store ''pw'' ''new'')) =
     note_versions_tbl one_note_store \<and>
   keyfile (snd (changeEncryptionPassword demo_crypto one_note_store ''pw'' ''new'')) =
     keyfile one_note_store \<and>
   (\<forall>p. fst (initializeEncryption demo_crypto
               (snd (changeEncryptionPassword demo_crypto one_note_store ''pw'' ''new'')) p) =
        fst (initializeEncryption demo_crypto one_note_store p))"
proof -
  have f: "Caught ReferenceError \<noteq> (Success () :: unit reply)" by simp
  have g: "Caught ReferenceError \<noteq> (Caught FileWriteError :: unit reply)" by simp
  have l: "length (notes_tbl one_note_store) = 1 \<and>
           length (note_versions_tbl one_note_store) = 1"
    by (simp add: one_note_store_eq)
  show ?thesis
    using changeEncryptionPassword_failure_is_clean [OF rotate_one_note f g] l
    by (simp only: rotate_one_note fst_conv snd_conv) simp
qed

subsection \<open>C4: the two search paths\<close>

text \<open>
  Claim C4 says that the encrypted and the plain path of \<open>searchNotes\<close> return the same list
  for every query over the same notes. Pairs of instances that hold the same notes
  (\<open>getNotes\<close> returns the same list on both) answer a search differently:
  \<^item> the objects of the encrypted path have the property \<open>is_deleted\<close> and those of the plain
    path do not, so the two lists differ whenever a note is found;
  \<^item> the query \<open>%\<close> is a wildcard of LIKE and a plain character for \<open>includes\<close>;
  \<^item> the query U+00E9 finds the note U+00C9 through \<open>toLowerCase\<close> and not through LIKE,
    which folds ASCII letters only;
  \<^item> the query \<open>b\<close> finds the note \<open>a\<close>, U+0000, \<open>b\<close> through \<open>includes\<close> and not through LIKE,
    which stops reading at U+0000;
  \<^item> a query of 49999 characters finds the note equal to it through \<open>includes\<close>, while LIKE
    refuses its pattern of 50001 bytes and the plain path returns \<open>[]\<close>;
  \<^item> of the 1001 matching notes \<open>milk_rows\<close> the encrypted path, which filters
    \<open>getNotes(1000, 0)\<close>, returns the 1000 newest, while the plain path returns them all.
\<close>

theorem search_paths_identical_counterexample:
  "getNotes demo_crypto one_note_store 50 0 = getNotes demo_crypto plain_note_store 50 0 \<and>
   searchNotes demo_crypto one_note_store ''MILK'' 50 0 =
     Returned [\<lparr>o_id = 1, o_content = ''Buy milk'', o_source = ''Safari'',
                o_url = ''https://example.com'', o_timestamp = 10, o_version = 1,
                o_is_deleted = Some False, o_is_sensitive = False\<rparr>] \<and>
   searchNotes demo_crypto plain_note_store ''MILK'' 50 0 =
     Returned [\<lparr>o_id = 1, o_content = ''Buy milk'', o_source = ''Safari'',
                o_url = ''https://example.com'', o_timestamp = 10, o_version = 1,
                o_is_deleted = None, o_is_sensitive = False\<rparr>] \<and>
   searchNotes demo_crypto one_note_store ''%'' 50 0 = Returned [] \<and>
   searchNotes demo_crypto plain_note_store ''%'' 50 0 =
     Returned [\<lparr>o_id = 1, o_content = ''Buy milk'', o_source = ''Safari'',
                o_url = ''https://example.com'', o_timestamp = 10, o_version = 1,
                o_is_deleted = None, o_is_sensitive = False\<rparr>] \<and>
   getNotes demo_crypto accent_store 50 0 = getNotes demo_crypto accent_plain_store 50 0 \<and>
   searchNotes demo_crypto accent_store [char_of (233 :: nat)] 50 0 =
     Returned [\<lparr>o_id = 1, o_content = [char_of (201 :: nat)], o_source = [],
                o_url = [], o_timestamp = 10, o_version = 1,
                o_is_deleted = Some False, o_is_sensitive = False\<rparr>] \<and>
   searchNotes demo_crypto accent_plain_store [char_of (233 :: nat)] 50 0 = Returned [] \<and>
   getNotes demo_crypto nul_store 50 0 = getNotes demo_crypto nul_plain_store 50 0 \<and>
   searchNotes demo_crypto nul_store ''b'' 50 0 =
     Returned [\<lparr>o_id = 1, o_content = [CHR ''a'', char_of (0 :: nat), CHR ''b''],
                o_source = [], o_url = [], o_timestamp = 10, o_version = 1,
                o_is_deleted = Some False, o_is_sensitive = False\<rparr>] \<and>
   searchNotes demo_crypto nul_plain_store ''b'' 50 0 = Returned [] \<and>
   getNotes demo_crypto long_store 1000 0 = getNotes demo_crypto long_plain_store 1000 0 \<and>
   searchNotes demo_crypto long_store long_text 50 0 =
     Returned [\<lparr>o_id = 1, o_content = long_text, o_source = [], o_url = [],
                o_timestamp = 10, o_version = 1, o_is_deleted = Some False,
                o_is_sensitive = False\<rparr>] \<and>
   searchNotes demo_crypto long_plain_store long_text 50 0 = Returned [] \<and>
   getNotes demo_crypto crowded_store 2000 0 = getNotes demo_crypto crowded_plain_store 2000 0 \<and>
   length milk_rows = 1001 \<and>
   searchNotes demo_crypto crowded_store ''milk'' 2000 0 =
     Returned (map object_of_row (take 1000 (order_by_timestamp_desc milk_rows))) \<and>
   searchNotes demo_crypto crowded_plain_store ''milk'' 2000 0 =
     Returned (map search_columns (order_by_timestamp_desc milk_rows))"
  by (intro conjI scenario_same_notes milk_encrypted milk_plain percent_encrypted
      percent_plain accent_same_notes accent_encrypted accent_plain nul_same_notes
      nul_encrypted nul_plain long_same_notes long_encrypted long_plain crowded_same_notes
      length_milk_rows crowded_encrypted crowded_plain)

text \<open>
  Claim C4, amended. Let an encrypted and a plain instance hold the same notes (the rows of
  the plain one are the decrypted rows of the other), at most 1000 of them non-deleted, all
  their content and source made of ASCII characters other than U+0000. Then for every query
  of such characters without \<open>%\<close> and \<open>_\<close> whose pattern \<open>%query%\<close> has at most 50000 bytes,
  every limit and every offset (natural numbers), both paths of \<open>searchNotes\<close> return the
  same notes in the same order: the non-deleted notes whose content or source contains the
  query up to the case of letters, ordered by timestamp descending, windowed by limit and
  offset. The objects of the two lists agree on every property but \<open>is_deleted\<close>, which only
  those of the encrypted path have.
\<close>

theorem searchNotes_paths_agree:
  assumes iE: "isInitialized E" and eE: "isEncryptionEnabled E"
    and iP: "isInitialized P" and nP: "\<not> isEncryptionEnabled P"
    and same: "notes_tbl P =
                 map (\<lambda>note. note\<lparr>n_content := decrypt L E (n_content note),
                                    n_source := decrypt L E (n_source note),
                                    n_url := decrypt L E (n_url note)\<rparr>) (notes_tbl E)"
    and cap: "length (filter (\<lambda>n. \<not> n_is_deleted n) (notes_tbl E)) \<le> 1000"
    and q: "wildcard_free query" "ascii_text query"
    and len: "utf8_bytes (''%'' @ query @ ''%'') \<le> 50000"
    and asc: "\<forall>n \<in> set (notes_tbl P). ascii_text (n_content n) \<and> ascii_text (n_source n)"
  shows "searchNotes L E query limit offset =
           Returned (map object_of_row (limit_offset limit offset (order_by_timestamp_desc
             (filter (\<lambda>n. \<not> n_is_deleted n \<and>
                        (includes_str (toLowerCase (n_content n)) (toLowerCase query) \<or>
                         (n_source n \<noteq> [] \<and>
                          includes_str (toLowerCase (n_source n)) (toLowerCase query))))
                (notes_tbl P))))) \<and>
         searchNotes L P query limit offset =
           Returned (map search_columns (limit_offset limit offset (order_by_timestamp_desc
             (filter (\<lambda>n. \<not> n_is_deleted n \<and>
                        (includes_str (toLowerCase (n_content n)) (toLowerCase query) \<or>
                         (n_source n \<noteq> [] \<and>
                          includes_str (toLowerCase (n_source n)) (toLowerCase query))))
                (notes_tbl P)))))"
proof -
  define D where "D = (\<lambda>note :: note_row. note\<lparr>n_content := decrypt L E (n_content note),
                                    n_source := decrypt L E (n_source note),
                                    n_url := decrypt L E (n_url note)\<rparr>)"
  define nd where "nd = (\<lambda>n :: note_row. \<not> n_is_deleted n)"
  define M where "M = (\<lambda>n :: note_row.
                        includes_str (toLowerCase (n_content n)) (toLowerCase query) \<or>
                         (n_source n \<noteq> [] \<and>
                          includes_str (toLowerCase (n_source n)) (toLowerCase query)))"
  define S where "S = (\<lambda>n :: note_row. sql_like (''%'' @ query @ ''%'') (n_content n) \<or>
                            sql_like (''%'' @ query @ ''%'') (n_source n))"
  have P_tbl: "notes_tbl P = map D (notes_tbl E)" using same by (simp add: D_def)
  have nd_D: "nd (D n) = nd n" for n by (simp add: nd_def D_def)
  have ts_D: "n_timestamp (D n) = n_timestamp n" for n by (simp add: D_def)
  have short: "take 1000 (order_by_timestamp_desc (filter nd (notes_tbl E))) =
               order_by_timestamp_desc (filter nd (notes_tbl E))"
    using cap by (simp add: nd_def)
  have getE: "getNotes L E 1000 0 =
                Returned (map D (order_by_timestamp_desc (filter nd (notes_tbl E))))"
    using iE eE short by (simp add: getNotes_def limit_offset_def D_def nd_def)
  have mapD: "map D (order_by_timestamp_desc (filter nd (notes_tbl E))) =
              order_by_timestamp_desc (filter nd (notes_tbl P))"
  proof -
    have "filter nd (notes_tbl P) = map D (filter nd (notes_tbl E))"
      by (simp add: P_tbl filter_map comp_def nd_D)
    then show ?thesis by (simp add: order_by_map [OF ts_D])
  qed
  have E_res: "searchNotes L E query limit offset =
        Returned (map object_of_row (limit_offset limit offset
          (filter M (order_by_timestamp_desc (filter nd (notes_tbl P))))))"
    using iE eE by (simp add: searchNotes_def getE mapD M_def Let_def slice_def limit_offset_def)
  have S_M: "(S n \<and> nd n) = (nd n \<and> M n)" if "n \<in> set (notes_tbl P)" for n
  proof -
    from asc that have "ascii_text (n_content n)" "ascii_text (n_source n)" by auto
    from match_agree [OF q this] show ?thesis by (auto simp: S_def M_def)
  qed
  have filt: "filter (\<lambda>n. S n \<and> nd n) (notes_tbl P) = filter (\<lambda>n. nd n \<and> M n) (notes_tbl P)"
    by (rule filter_cong) (simp_all add: S_M)
  have short_pattern: "\<not> utf8_bytes (''%'' @ query @ ''%'') > 50000" using len by simp
  have P_res: "searchNotes L P query limit offset =
        Returned (map search_columns (limit_offset limit offset
          (order_by_timestamp_desc (filter (\<lambda>n. nd n \<and> M n) (notes_tbl P)))))"
    using iP nP filt short_pattern
    by (simp add: searchNotes_def S_def nd_def Let_def del: utf8_bytes_Cons utf8_bytes_append)
  have "filter M (order_by_timestamp_desc (filter nd (notes_tbl P))) =
        order_by_timestamp_desc (filter (\<lambda>n. nd n \<and> M n) (notes_tbl P))"
    by (simp add: order_by_filter)
  then show ?thesis using E_res P_res by (simp add: nd_def M_def)
qed

theorem searchNotes_paths_agree_witness:
  "isInitialized one_note_store \<and> isEncryptionEnabled one_note_store \<and>
   isInitialized plain_note_store \<and> \<not> isEncryptionEnabled plain_note_store \<and>
   length (filter (\<lambda>n. \<not> n_is_deleted n) (notes_tbl one_note_store)) \<le> 1000 \<and>
   wildcard_free ''MILK'' \<and> ascii_text ''MILK'' \<and>
   utf8_bytes (''%'' @ ''MILK'' @ ''%'') \<le> 50000 \<and>
   (\<exists>rows. searchNotes demo_crypto one_note_store ''MILK'' 50 0 =
              Returned (map object_of_row rows) \<and>
            searchNotes demo_crypto plain_note_store ''MILK'' 50 0 =
              Returned (map search_columns rows) \<and>
            map n_content rows = [''Buy milk''])"
proof -
  have iE: "isInitialized one_note_store" and eE: "isEncryptionEnabled one_note_store"
    by (simp_all add: one_note_store_eq)
  have iP: "isInitialized plain_note_store" and nP: "\<not> isEncryptionEnabled plain_note_store"
    by (simp_all add: plain_note_store_eq)
  have same: "notes_tbl plain_note_store =
      map (\<lambda>note. note\<lparr>n_content := decrypt demo_crypto one_note_store (n_content note),
                         n_source := decrypt demo_crypto one_note_store (n_source note),
                         n_url := decrypt demo_crypto one_note_store (n_url note)\<rparr>)
        (notes_tbl one_note_store)"
    by (simp add: plain_note_store_eq one_note_store_eq decrypt_def truthy_def demo_crypto_def)
  have cap: "length (filter (\<lambda>n. \<not> n_is_deleted n) (notes_tbl one_note_store)) \<le> 1000"
    by (simp add: one_note_store_eq)
  have q: "wildcard_free ''MILK''" "ascii_text ''MILK''"
    using milk_wildcard_free scenario_ascii by simp_all
  have len: "utf8_bytes (''%'' @ ''MILK'' @ ''%'') \<le> 50000" by simp
  have asc: "\<forall>n \<in> set (notes_tbl plain_note_store).
               ascii_text (n_content n) \<and> ascii_text (n_source n)"
    using scenario_ascii by (simp add: plain_note_store_eq)
  let ?rows = "limit_offset 50 0 (order_by_timestamp_desc
             (filter (\<lambda>n. \<not> n_is_deleted n \<and>
                        (includes_str (toLowerCase (n_content n)) (toLowerCase ''MILK'') \<or>
                         (n_source n \<noteq> [] \<and>
                          includes_str (toLowerCase (n_source n)) (toLowerCase ''MILK''))))
                (notes_tbl plain_note_store)))"
  note main = searchNotes_paths_agree [OF iE eE iP nP same cap q len asc, of 50 0]
  have e: "searchNotes demo_crypto one_note_store ''MILK'' 50 0 =
             Returned (map object_of_row ?rows)"
    using main by (rule conjunct1)
  have p: "searchNotes demo_crypto plain_note_store ''MILK'' 50 0 =
             Returned (map search_columns ?rows)"
    using main by (rule conjunct2)
  have "map search_columns ?rows =
          [\<lparr>o_id = 1, o_content = ''Buy milk'', o_source = ''Safari'',
            o_url = ''https://example.com'', o_timestamp = 10, o_version = 1,
            o_is_deleted = None, o_is_sensitive = False\<rparr>]"
    using p unfolding milk_plain by simp
  then have "map o_content (map search_columns ?rows) = [''Buy milk'']"
    by (simp only: list.map note_object.simps)
  then have r: "map n_content ?rows = [''Buy milk'']"
    by (simp add: search_columns_def comp_def)
  have ex: "\<exists>rows. searchNotes demo_crypto one_note_store ''MILK'' 50 0 =
              Returned (map object_of_row rows) \<and>
            searchNotes demo_crypto plain_note_store ''MILK'' 50 0 =
              Returned (map search_columns rows) \<and>
            map n_content rows = [''Buy milk'']"
    by (intro exI [of _ ?rows] conjI e p r)
  show ?thesis
    by (intro conjI iE eE iP nP cap q len ex)
qed

subsection \<open>C5: a row that cannot be decrypted\<close>

text \<open>
  Claim C5 says that an unreadable ciphertext makes decryption fail with an error that
  \<open>getNotes\<close> lets through to its caller. The content of note 1 of the damaged instance was
  written under another key. \<open>getNotes\<close> returns normally: with the empty text as the
  content of the note when the cipher returns the empty text under the loaded key, as
  CryptoJS mostly does, and with the stored value as its content when the cipher throws.
\<close>

theorem getNotes_propagates_counterexample:
  "encryptionKey damaged_store = Some ''k[pw]s'' \<and>
   map n_content (notes_tbl damaged_store) = [''<k[other]s>Buy milk''] \<and>
   AES_decrypt demo_crypto ''<k[other]s>Buy milk'' ''k[pw]s'' = Some [] \<and>
   getNotes demo_crypto damaged_store 50 0 =
     Returned [\<lparr>n_id = 1, n_content = [], n_source = ''Safari'',
                n_url = [], n_timestamp = 10, n_version = 1,
                n_is_deleted = False, n_is_sensitive = False\<rparr>] \<and>
   AES_decrypt strict_crypto ''<k[other]s>Buy milk'' ''k[pw]s'' = None \<and>
   getNotes strict_crypto damaged_store 50 0 =
     Returned [\<lparr>n_id = 1, n_content = ''<k[other]s>Buy milk'', n_source = ''Safari'',
                n_url = [], n_timestamp = 10, n_version = 1,
                n_is_deleted = False, n_is_sensitive = False\<rparr>]"
  by (simp add: damaged_store_eq demo_crypto_def strict_crypto_def limit_offset_def
      order_by_timestamp_desc_def getNotes_def decrypt_def truthy_def)

text \<open>
  Claim C5, amended. No decryption error reaches the caller of \<open>getNotes\<close>. On an initialized
  instance \<open>getNotes\<close> never throws: it returns the selected rows in order, each with the
  values of \<open>decrypt\<close> for its content, source and url. For a non-empty stored value, with
  encryption enabled and a key loaded, \<open>decrypt\<close> returns what the cipher returns under that
  key, whatever it is, and the stored value itself when the cipher throws.
\<close>

theorem getNotes_never_propagates:
  assumes "isInitialized s"
  shows "getNotes L s limit offset =
           Returned (map (\<lambda>note. note\<lparr>n_content := decrypt L s (n_content note),
                                        n_source := decrypt L s (n_source note),
                                        n_url := decrypt L s (n_url note)\<rparr>)
             (limit_offset limit offset
                (order_by_timestamp_desc
                   (filter (\<lambda>n. \<not> n_is_deleted n) (notes_tbl s))))) \<and>
         (\<forall>c k. isEncryptionEnabled s \<and> encryptionKey s = Some k \<and> k \<noteq> [] \<and> c \<noteq> [] \<longrightarrow>
            decrypt L s c = (case AES_decrypt L c k of None \<Rightarrow> c | Some p \<Rightarrow> p))"
proof -
  let ?rows = "limit_offset limit offset
                 (order_by_timestamp_desc (filter (\<lambda>n. \<not> n_is_deleted n) (notes_tbl s)))"
  have A: "getNotes L s limit offset =
           Returned (map (\<lambda>note. note\<lparr>n_content := decrypt L s (n_content note),
                                        n_source := decrypt L s (n_source note),
                                        n_url := decrypt L s (n_url note)\<rparr>) ?rows)"
  proof (cases "isEncryptionEnabled s")
    case True
    then show ?thesis using assms by (simp add: getNotes_def Let_def)
  next
    case False
    then have "decrypt L s x = x" for x by (simp add: decrypt_off)
    then show ?thesis using assms False by (simp add: getNotes_def Let_def)
  qed
  have B: "decrypt L s c = (case AES_decrypt L c k of None \<Rightarrow> c | Some p \<Rightarrow> p)"
    if "isEncryptionEnabled s" "encryptionKey s = Some k" "k \<noteq> []" "c \<noteq> []" for c k
    using that by (simp add: decrypt_def truthy_def split: option.splits)
  show ?thesis using A B by blast
qed

theorem getNotes_never_propagates_witness:
  "isInitialized damaged_store \<and> isEncryptionEnabled damaged_store \<and>
   encryptionKey damaged_store = Some ''k[pw]s'' \<and>
   map n_content (notes_tbl damaged_store) = [''<k[other]s>Buy milk''] \<and>
   decrypt demo_crypto damaged_store ''<k[other]s>Buy milk'' = [] \<and>
   decrypt strict_crypto damaged_store ''<k[other]s>Buy milk'' = ''<k[other]s>Buy milk'' \<and>
   (\<exists>rows. getNotes demo_crypto damaged_store 50 0 = Returned rows \<and>
            map n_content rows = [[]]) \<and>
   (\<exists>rows. getNotes strict_crypto damaged_store 50 0 = Returned rows \<and>
            map n_content rows = [''<k[other]s>Buy milk''])"
proof -
  have h1: "isInitialized damaged_store" by (simp add: damaged_store_eq)
  have h2: "isEncryptionEnabled damaged_store" by (simp add: damaged_store_eq)
  have h3: "encryptionKey damaged_store = Some ''k[pw]s''" by (simp add: damaged_store_eq)
  have h4: "map n_content (notes_tbl damaged_store) = [''<k[other]s>Buy milk'']"
    by (simp add: damaged_store_eq)
  have rows: "limit_offset 50 0 (order_by_timestamp_desc
                (filter (\<lambda>n. \<not> n_is_deleted n) (notes_tbl damaged_store))) =
              notes_tbl damaged_store"
    by (simp add: damaged_store_eq limit_offset_def order_by_timestamp_desc_def)
  note demo = getNotes_never_propagates [OF h1, of demo_crypto 50 0]
  note strict = getNotes_never_propagates [OF h1, of strict_crypto 50 0]
  have d1: "decrypt demo_crypto damaged_store ''<k[other]s>Buy milk'' = []"
    using demo h2 h3 by (simp add: demo_crypto_def)
  have d2: "decrypt strict_crypto damaged_store ''<k[other]s>Buy milk'' =
              ''<k[other]s>Buy milk''"
    using strict h2 h3 by (simp add: demo_crypto_def strict_crypto_def)
  have m: "map n_content
             (map (\<lambda>note. note\<lparr>n_content := decrypt K damaged_store (n_content note),
                                n_source := decrypt K damaged_store (n_source note),
                                n_url := decrypt K damaged_store (n_url note)\<rparr>)
                (notes_tbl damaged_store)) =
           map (decrypt K damaged_store) (map n_content (notes_tbl damaged_store))"
    for K :: "char crypto"
    by (simp add: comp_def)
  let ?D = "\<lambda>K note. note\<lparr>n_content := decrypt K damaged_store (n_content note),
                            n_source := decrypt K damaged_store (n_source note),
                            n_url := decrypt K damaged_store (n_url note)\<rparr>"
  have r1: "getNotes demo_crypto damaged_store 50 0 =
              Returned (map (?D demo_crypto) (notes_tbl damaged_store))"
    by (rule conjunct1 [OF demo [unfolded rows]])
  have c1: "map n_content (map (?D demo_crypto) (notes_tbl damaged_store)) = [[]]"
    unfolding m h4 by (simp add: d1)
  have g1: "\<exists>rows. getNotes demo_crypto damaged_store 50 0 = Returned rows \<and>
                   map n_content rows = [[]]"
    by (intro exI [of _ "map (?D demo_crypto) (notes_tbl damaged_store)"] conjI r1 c1)
  have r2: "getNotes strict_crypto damaged_store 50 0 =
              Returned (map (?D strict_crypto) (notes_tbl damaged_store))"
    by (rule conjunct1 [OF strict [unfolded rows]])
  have c2: "map n_content (map (?D strict_crypto) (notes_tbl damaged_store)) =
              [''<k[other]s>Buy milk'']"
    unfolding m h4 by (simp add: d2)
  have g2: "\<exists>rows. getNotes strict_crypto damaged_store 50 0 = Returned rows \<and>
                   map n_content rows = [''<k[other]s>Buy milk'']"
    by (intro exI [of _ "map (?D strict_crypto) (notes_tbl damaged_store)"] conjI r2 c2)
  show ?thesis by (intro conjI h1 h2 h3 h4 d1 d2 g1 g2)
qed

subsection \<open>C6: deleting a note that is already soft-deleted\<close>

text \<open>
  Claim C6 asks that \<open>deleteNote\<close> on a soft-deleted note return \<open>false\<close> and change nothing.
  The UPDATE of \<open>deleteNote\<close> selects by id alone, so it changes one row again: the call
  returns \<open>true\<close> and appends a second \<open>delete\<close> entry, with a version number already used.
\<close>

theorem deleteNote_twice_succeeds_again:
  "map n_is_deleted (notes_tbl deleted_store) = [True] \<and>
   fst (deleteNote deleted_store 1) = Returned True \<and>
   map v_change_type (note_versions_tbl deleted_store) = [''create'', ''delete''] \<and>
   map v_change_type (note_versions_tbl twice_deleted_store) =
     [''create'', ''delete'', ''delete''] \<and>
   map v_version (note_versions_tbl twice_deleted_store) = [1, 2, 2]"
  by (simp only: twice_deleted_store_def delete_deleted_note fst_conv snd_conv)
    (simp add: deleted_store_eq)

subsection \<open>C7: addNote when the history insert fails\<close>

text \<open>
  Claim C7 asks that the two INSERTs of \<open>addNote\<close> be one unit. They are two autocommitted
  statements: when the second one fails, \<open>addNote\<close> throws and the \<open>notes\<close> row of the first
  one stays, without any history entry.
\<close>

theorem addNote_keeps_note_when_history_fails:
  "notes_tbl failing_disk_store = [] \<and>
   fst (addNote demo_crypto failing_disk_store milk_note) = Thrown SqliteError \<and>
   map n_id (notes_tbl (snd (addNote demo_crypto failing_disk_store milk_note))) = [1] \<and>
   note_versions_tbl (snd (addNote demo_crypto failing_disk_store milk_note)) = []"
  by (simp only: add_on_failing_disk fst_conv snd_conv)
    (simp add: failing_disk_store_def unlocked_store_eq)

subsection \<open>C8: round trip of the field cipher\<close>

text \<open>
  Claim C8 says that decrypting what \<open>encrypt\<close> returned for \<open>x\<close> gives \<open>x\<close> back for every
  string \<open>x\<close>. A JavaScript string is a sequence of 16-bit code units. On the string made of
  the unpaired surrogate U+D800 the cipher throws; \<open>encrypt\<close> catches the exception and
  returns the string itself, which is no ciphertext: \<open>decrypt\<close> returns the empty string for
  it.
\<close>

theorem encrypt_decrypt_round_trip_counterexample:
  "isEncryptionEnabled unlocked_store \<and> encryptionKey unlocked_store = Some ''k[pw]s'' \<and>
   \<not> well_formed [0xD800] \<and>
   AES_encrypt demo_crypto16 [0xD800] ''k[pw]s'' (rng unlocked_store) = None \<and>
   fst (encrypt demo_crypto16 unlocked_store [0xD800]) = [0xD800] \<and>
   decrypt demo_crypto16 (snd (encrypt demo_crypto16 unlocked_store [0xD800]))
     (fst (encrypt demo_crypto16 unlocked_store [0xD800])) = [] \<and>
   [] \<noteq> [0xD800 :: 16 word]"
  by (simp add: unlocked_store_eq encrypt_def decrypt_def truthy_def demo_crypto16_def
      is_high_def is_low_def units_def)

text \<open>
  Claim C8, amended. For every string \<open>x\<close> on which the cipher of the library round-trips
  (with CryptoJS, a string without unpaired surrogates) and every state of the instance,
  decrypting what \<open>encrypt\<close> returned for \<open>x\<close> gives \<open>x\<close> back, whether encryption is enabled
  or not; and while encryption is disabled or no key is loaded, \<open>encrypt\<close> and \<open>decrypt\<close>
  are both the identity, on every string. The three fields of a note go through three
  separate calls, each of which is an instance of this statement.
\<close>

theorem encrypt_decrypt_round_trip:
  "(aes_round_trip_on W L \<and> W x \<longrightarrow>
      decrypt L (snd (encrypt L s x)) (fst (encrypt L s x)) = x) \<and>
   (\<not> isEncryptionEnabled s \<or> \<not> truthy (encryptionKey s) \<longrightarrow>
      encrypt L s x = (x, s) \<and> decrypt L s x = x)"
  using decrypt_encrypt [of W L x s] encrypt_off [of s L x] decrypt_off [of s L x] by blast

theorem encrypt_decrypt_round_trip_witness:
  "aes_round_trip_on well_formed demo_crypto16 \<and> well_formed (units ''Buy milk'') \<and>
   fst (encrypt demo_crypto16 unlocked_store (units ''Buy milk'')) =
     units ''<k[pw]s>Buy milk'' \<and>
   decrypt demo_crypto16 (snd (encrypt demo_crypto16 unlocked_store (units ''Buy milk'')))
     (fst (encrypt demo_crypto16 unlocked_store (units ''Buy milk''))) = units ''Buy milk'' \<and>
   \<not> isEncryptionEnabled fresh_store \<and>
   encrypt demo_crypto16 fresh_store [0xD800] = ([0xD800], fresh_store) \<and>
   decrypt demo_crypto16 fresh_store [0xD800] = [0xD800]"
proof -
  have rt: "aes_round_trip_on well_formed demo_crypto16"
    by (simp add: aes_round_trip_on_def demo_crypto16_def units_def)
  have wf: "well_formed (units ''Buy milk'')" by code_simp
  have enc: "fst (encrypt demo_crypto16 unlocked_store (units ''Buy milk'')) =
               units ''<k[pw]s>Buy milk''"
    using wf by (simp add: encrypt_def unlocked_store_eq demo_crypto16_def truthy_def units_def)
  have off: "\<not> isEncryptionEnabled fresh_store"
    by (simp add: fresh_store_def)
  show ?thesis
    using encrypt_decrypt_round_trip
        [of well_formed demo_crypto16 "units ''Buy milk''" unlocked_store]
      encrypt_decrypt_round_trip [of well_formed demo_crypto16 "[0xD800]" fresh_store]
      rt wf enc off
    by simp
qed

subsection \<open>C9: encrypted search looks at the 1000 newest notes only\<close>

text \<open>
  Claim C9. With encryption enabled, \<open>searchNotes\<close> filters \<open>getNotes(1000, 0)\<close>, that is, the
  decrypted images of the first 1000 non-deleted rows in descending timestamp order: whatever
  the query, limit and offset, every object it returns is one of these, and \<open>getSearchCount\<close>
  is the number of matching notes among these, hence at most 1000.
\<close>

theorem search_examines_newest_1000:
  assumes "isInitialized s" "isEncryptionEnabled s"
  shows "\<exists>newest found cnt.
           getNotes L s 1000 0 = Returned newest \<and>
           newest = map (\<lambda>note. note\<lparr>n_content := decrypt L s (n_content note),
                                       n_source := decrypt L s (n_source note),
                                       n_url := decrypt L s (n_url note)\<rparr>)
                      (take 1000 (order_by_timestamp_desc
                         (filter (\<lambda>n. \<not> n_is_deleted n) (notes_tbl s)))) \<and>
           searchNotes L s query limit offset = Returned found \<and>
           set found \<subseteq> object_of_row ` set newest \<and>
           getSearchCount L s query = Returned cnt \<and>
           cnt = length (filter (\<lambda>note.
                   includes_str (toLowerCase (n_content note)) (toLowerCase query) \<or>
                   (n_source note \<noteq> [] \<and>
                    includes_str (toLowerCase (n_source note)) (toLowerCase query))) newest) \<and>
           cnt \<le> 1000"
proof -
  define newest where "newest = map (\<lambda>note. note\<lparr>n_content := decrypt L s (n_content note),
                                       n_source := decrypt L s (n_source note),
                                       n_url := decrypt L s (n_url note)\<rparr>)
                      (take 1000 (order_by_timestamp_desc
                         (filter (\<lambda>n. \<not> n_is_deleted n) (notes_tbl s))))"
  define matches where "matches = (\<lambda>note :: note_row.
                   includes_str (toLowerCase (n_content note)) (toLowerCase query) \<or>
                   (n_source note \<noteq> [] \<and>
                    includes_str (toLowerCase (n_source note)) (toLowerCase query)))"
  have g: "getNotes L s 1000 0 = Returned newest"
    using assms by (simp add: getNotes_def limit_offset_def newest_def)
  have len: "length newest \<le> 1000" by (simp add: newest_def)
  have sr: "\<And>l off. searchNotes L s query l off =
              Returned (map object_of_row (slice off (off + l) (filter matches newest)))"
    using assms g by (simp add: searchNotes_def matches_def Let_def)
  have "set (slice offset (offset + limit) (filter matches newest)) \<subseteq> set newest"
    by (auto simp: slice_def dest!: in_set_takeD in_set_dropD)
  then have sub: "set (map object_of_row (slice offset (offset + limit)
                    (filter matches newest))) \<subseteq> object_of_row ` set newest"
    by auto
  have flen: "length (filter matches newest) \<le> 1000"
    using len length_filter_le [of matches newest] by linarith
  have cnt: "getSearchCount L s query = Returned (length (filter matches newest))"
    using assms flen by (simp add: getSearchCount_def sr slice_def)
  show ?thesis
    using g sr [of limit offset] sub cnt flen
    unfolding newest_def [symmetric] matches_def [symmetric]
    by blast
qed

theorem search_examines_newest_1000_witness:
  "isInitialized crowded_store \<and> isEncryptionEnabled crowded_store \<and>
   length (filter (\<lambda>n. \<not> n_is_deleted n) (notes_tbl crowded_store)) = 1001 \<and>
   getSearchCount demo_crypto crowded_store ''milk'' = Returned 1000"
proof -
  let ?D = "\<lambda>note. note\<lparr>n_content := decrypt demo_crypto crowded_store (n_content note),
                     n_source := decrypt demo_crypto crowded_store (n_source note),
                     n_url := decrypt demo_crypto crowded_store (n_url note)\<rparr>"
  let ?M = "\<lambda>note. includes_str (toLowerCase (n_content note)) (toLowerCase ''milk'') \<or>
              (n_source note \<noteq> [] \<and>
               includes_str (toLowerCase (n_source note)) (toLowerCase ''milk''))"
  from search_examines_newest_1000 [OF crowded_flags(1,2), of demo_crypto "''milk''" 50 0]
  obtain newest cnt where
    n: "newest = map ?D (take 1000 (order_by_timestamp_desc
                  (filter (\<lambda>n. \<not> n_is_deleted n) (notes_tbl crowded_store))))"
    and c: "getSearchCount demo_crypto crowded_store ''milk'' = Returned cnt"
    and k: "cnt = length (filter ?M newest)"
    by blast
  have len: "length newest = 1000"
    by (simp add: n crowded_flags crowded_not_deleted length_crowded_rows)
  have content: "n_content x = ''milk''" if "x \<in> set newest" for x
  proof -
    from that obtain r where "r \<in> set (crowded_rows (\<lambda>x. ''<k[pw]s>'' @ x))" "x = ?D r"
      unfolding n by (auto simp: crowded_flags crowded_not_deleted dest!: in_set_takeD)
    then have "?D r \<in> set (map ?D (crowded_rows (\<lambda>x. ''<k[pw]s>'' @ x)))" by simp
    then have "x \<in> set (crowded_rows (\<lambda>x. x))"
      unfolding crowded_decrypted using \<open>x = ?D r\<close> by simp
    then show ?thesis by (auto simp: crowded_rows_def)
  qed
  have "filter ?M newest = newest"
    by (rule filter_True) (simp add: content includes_milk)
  then have "cnt = 1000" using k len by simp
  then show ?thesis using c crowded_flags(1,2) crowded_count by simp
qed

subsection \<open>C10: restoring a version of a soft-deleted note\<close>

text \<open>
  Claim C10. \<open>restoreNoteVersion\<close> looks the note up by id alone. For a soft-deleted note
  with a history entry at the requested version (and a storage engine that executes the two
  statements), it returns \<open>true\<close>, copies content, source and url of the snapshot onto the
  row, stores the next version number, appends the entry \<open>restore_v<version>\<close>, and leaves
  \<open>is_deleted\<close> set, so that no call of \<open>getNotes\<close> returns the note.
\<close>

theorem restore_of_deleted_note:
  assumes init: "isInitialized s"
    and budget: "io_budget s = None \<or> (\<exists>b. io_budget s = Some (Suc (Suc b)))"
    and pk: "distinct (map n_id (notes_tbl s))"
    and cur: "cur \<in> set (notes_tbl s)" "n_id cur = noteId" "n_is_deleted cur"
    and snap: "get_row (\<lambda>v. v_note_id v = noteId \<and> v_version v = version)
                 (note_versions_tbl s) = Some snap"
  shows "\<exists>s'. restoreNoteVersion s noteId version = (Returned True, s') \<and>
           notes_tbl s' =
             map (\<lambda>n. if n_id n = noteId
                       then n\<lparr>n_content := v_content snap, n_source := v_source snap,
                              n_url := v_url snap, n_version := n_version cur + 1\<rparr>
                       else n) (notes_tbl s) \<and>
           note_versions_tbl s' = note_versions_tbl s @
             [\<lparr>v_id = next_version_id s, v_note_id = noteId, v_content = v_content snap,
               v_source = v_source snap, v_url = v_url snap, v_version = n_version cur + 1,
               v_change_type = ''restore_v'' @ show_nat version\<rparr>] \<and>
           (\<forall>n \<in> set (notes_tbl s'). n_id n = noteId \<longrightarrow> n_is_deleted n) \<and>
           (\<forall>L limit offset rows.
              getNotes L s' limit offset = Returned rows \<longrightarrow> noteId \<notin> n_id ` set rows)"
proof -
  let ?upd = "\<lambda>n. if n_id n = noteId
                       then n\<lparr>n_content := v_content snap, n_source := v_source snap,
                              n_url := v_url snap, n_version := n_version cur + 1\<rparr>
                       else n"
  let ?row = "\<lparr>v_id = next_version_id s, v_note_id = noteId, v_content = v_content snap,
               v_source = v_source snap, v_url = v_url snap, v_version = n_version cur + 1,
               v_change_type = ''restore_v'' @ show_nat version\<rparr>"
  have g: "get_row (\<lambda>n. n_id n = noteId) (notes_tbl s) = Some cur"
    using get_row_distinct [OF pk cur(1)] cur(2) by simp
  have del: "\<forall>n \<in> set (notes_tbl s). n_id n = noteId \<longrightarrow> n_is_deleted n"
  proof (intro ballI impI)
    fix n assume "n \<in> set (notes_tbl s)" "n_id n = noteId"
    with pk cur(1,2) have "n = cur" by (auto intro: key_unique)
    with cur(3) show "n_is_deleted n" by simp
  qed
  have "\<exists>s'. restoreNoteVersion s noteId version = (Returned True, s') \<and>
          notes_tbl s' = map ?upd (notes_tbl s) \<and>
          note_versions_tbl s' = note_versions_tbl s @ [?row]"
    using budget
  proof
    assume "io_budget s = None"
    then show ?thesis
      using init g snap
      by (simp add: restoreNoteVersion_def addNoteVersion_def run_None Let_def)
  next
    assume "\<exists>b. io_budget s = Some (Suc (Suc b))"
    then obtain b where "io_budget s = Some (Suc (Suc b))" by blast
    then show ?thesis
      using init g snap
      by (simp add: restoreNoteVersion_def addNoteVersion_def run_Suc Let_def)
  qed
  then obtain s' where r: "restoreNoteVersion s noteId version = (Returned True, s')"
      and n: "notes_tbl s' = map ?upd (notes_tbl s)"
      and v: "note_versions_tbl s' = note_versions_tbl s @ [?row]"
    by blast
  have del': "\<forall>n \<in> set (notes_tbl s'). n_id n = noteId \<longrightarrow> n_is_deleted n"
    unfolding n by (rule ball_map_preserved [OF del]) simp_all
  have hidden: "noteId \<notin> n_id ` set rows" if "getNotes L s' limit offset = Returned rows"
    for L limit offset rows
    using getNotes_ids [OF that] del' by auto
  show ?thesis
    apply (rule exI [of _ s'])
    apply (intro conjI)
        apply (rule r)
       apply (rule n)
      apply (rule v)
     apply (rule del')
    using hidden apply blast
    done
qed

theorem restore_of_deleted_note_witness:
  "fst (restoreNoteVersion deleted_store 1 1) = Returned True \<and>
   map n_is_deleted (notes_tbl (snd (restoreNoteVersion deleted_store 1 1))) = [True] \<and>
   map n_version (notes_tbl (snd (restoreNoteVersion deleted_store 1 1))) = [2] \<and>
   map v_change_type (note_versions_tbl (snd (restoreNoteVersion deleted_store 1 1))) =
     [''create'', ''delete'', ''restore_v1''] \<and>
   getNotes demo_crypto (snd (restoreNoteVersion deleted_store 1 1)) 50 0 = Returned []"
proof -
  let ?cur = "\<lparr>n_id = 1, n_content = ''<k[pw]s>Buy milk'', n_source = ''<k[pw]s>Safari'',
               n_url = ''<k[pw]s>https://example.com'', n_timestamp = 10, n_version = 1,
               n_is_deleted = True, n_is_sensitive = False\<rparr>"
  let ?snap = "\<lparr>v_id = 1, v_note_id = 1, v_content = ''<k[pw]s>Buy milk'',
                v_source = ''<k[pw]s>Safari'', v_url = ''<k[pw]s>https://example.com'',
                v_version = 1, v_change_type = ''create''\<rparr>"
  have h1: "isInitialized deleted_store" by (simp add: deleted_store_eq)
  have h2: "io_budget deleted_store = None \<or>
            (\<exists>b. io_budget deleted_store = Some (Suc (Suc b)))"
    by (simp add: deleted_store_eq)
  have h3: "distinct (map n_id (notes_tbl deleted_store))" by (simp add: deleted_store_eq)
  have h4: "?cur \<in> set (notes_tbl deleted_store)" by (simp add: deleted_store_eq)
  have h5: "n_id ?cur = 1" by simp
  have h6: "n_is_deleted ?cur" by simp
  have h7: "get_row (\<lambda>v. v_note_id v = 1 \<and> v_version v = 1)
              (note_versions_tbl deleted_store) = Some ?snap"
    by (simp add: deleted_store_eq get_row_def)
  from restore_of_deleted_note [OF h1 h2 h3 h4 h5 h6 h7]
  obtain s' where r: "restoreNoteVersion deleted_store 1 1 = (Returned True, s')"
    and n: "notes_tbl s' = map (\<lambda>n. if n_id n = 1
                then n\<lparr>n_content := v_content ?snap, n_source := v_source ?snap,
                       n_url := v_url ?snap, n_version := n_version ?cur + 1\<rparr>
                else n) (notes_tbl deleted_store)"
    and v: "note_versions_tbl s' = note_versions_tbl deleted_store @
             [\<lparr>v_id = next_version_id deleted_store, v_note_id = 1,
               v_content = v_content ?snap, v_source = v_source ?snap, v_url = v_url ?snap,
               v_version = n_version ?cur + 1,
               v_change_type = ''restore_v'' @ show_nat 1\<rparr>]"
    and hidden: "\<forall>L limit offset rows.
              getNotes L s' limit offset = Returned rows \<longrightarrow> 1 \<notin> n_id ` set rows"
    by blast
  have i: "isInitialized s'"
    using r h1 by (auto simp: restoreNoteVersion_def addNoteVersion_def run_def Let_def
        deleted_store_eq get_row_def)
  have g: "getNotes demo_crypto s' 50 0 = Returned []"
    using i by (simp add: getNotes_def n deleted_store_eq limit_offset_def
        order_by_timestamp_desc_def)
  show ?thesis
    using r n v g by (simp add: deleted_store_eq show_nat_1)
qed


end
